theory Spec2Isabelle
  imports Main
begin

section \<open>Wire messages and the protocol sequencer\<close>

text \<open>
  The module \<^verbatim>\<open>packages/query/src/actions.ts\<close> drives a connection through an
  \<^verbatim>\<open>AsyncQueue\<close> imported from the wire package. The message records it sends
  and receives are modelled as datatypes whose constructors carry the payload
  properties that \<^verbatim>\<open>actions.ts\<close> writes or reads. JavaScript numbers that the
  module handles are object identifiers, attribute numbers and array lengths;
  they are modelled as \<open>int\<close>. A property that may be \<^verbatim>\<open>undefined\<close> is an
  \<open>option\<close>, with \<open>None\<close> for \<^verbatim>\<open>undefined\<close>.
\<close>

datatype PreparedObjectType = Statement | Portal

text \<open>
  Modelled from the spec: the outbound message kinds of the wire package
  (\<^verbatim>\<open>messages.startupMessage\<close>, \<^verbatim>\<open>query\<close>, \<^verbatim>\<open>parse\<close>, \<^verbatim>\<open>describe\<close>,
  \<^verbatim>\<open>close\<close>, \<^verbatim>\<open>flush\<close>), with the payloads \<^verbatim>\<open>actions.ts\<close> passes to
  \<^verbatim>\<open>queue.send\<close>. \<open>Bind\<close> and \<open>Execute\<close> are the two protocol messages that
  would run a prepared statement; \<^verbatim>\<open>actions.ts\<close> has no call that builds them.
\<close>

datatype client_message =
    StartupMessage "(string \<times> string) list"
  | Query string
  | Parse string string "int list"
  | Describe string PreparedObjectType
  | Close PreparedObjectType string
  | Flush
  | Bind string string
  | Execute string

record field_descr =
  name :: string
  tableOID :: int
  columnAttrNumber :: int
  typeOID :: int
  typeSize :: int
  typeModifier :: int
  formatCode :: int

record param =
  oid :: int

datatype column = Column (value_of: string)

text \<open>
  Modelled from the spec: the inbound message kinds. An error response carries a
  dictionary from single-letter tags to texts (\<^verbatim>\<open>errorFields.R\<close>,
  \<^verbatim>\<open>errorFields.H\<close>, ...); a data row carries its columns, whose
  \<^verbatim>\<open>value.toString()\<close> is the text kept here.
\<close>

datatype server_message =
    ReadyForQuery
  | RowDescription "field_descr list"
  | DataRow "column list"
  | CommandComplete string
  | ErrorResponse "string \<rightharpoonup> string"
  | ParseComplete
  | ParameterDescription "param list"
  | NoData
  | CloseComplete

datatype server_kind =
    readyForQuery | rowDescription | dataRow | commandComplete | errorResponse
  | parseComplete | parameterDescription | noData | closeComplete

fun kind_of :: "server_message \<Rightarrow> server_kind" where
  "kind_of ReadyForQuery = readyForQuery"
| "kind_of (RowDescription fs) = rowDescription"
| "kind_of (DataRow cs) = dataRow"
| "kind_of (CommandComplete tag) = commandComplete"
| "kind_of (ErrorResponse ef) = errorResponse"
| "kind_of ParseComplete = parseComplete"
| "kind_of (ParameterDescription ps) = parameterDescription"
| "kind_of NoData = noData"
| "kind_of CloseComplete = closeComplete"

text \<open>
  Modelled from the spec: what the client did on the connection, oldest first,
  as the sequencer sees it: a message handed to \<^verbatim>\<open>queue.send\<close>, or a call of
  \<^verbatim>\<open>queue.reply\<close> with its expected kinds.
\<close>

datatype event = Sent client_message | Awaited "server_kind list"

text \<open>
  Modelled from the spec: the ways an await of the sequencer does not deliver a
  reply. The next inbound message is not of an expected kind (\<open>Desync\<close>, a
  rejected promise), or the peer sends nothing more and the await never
  resumes (\<open>Blocked\<close>: the caller does not return). \<open>TypeError\<close> is the
  JavaScript runtime error of reading a property of \<^verbatim>\<open>undefined\<close>.
\<close>

datatype fault = Desync | Blocked | TypeError

text \<open>
  Modelled from the spec: the \<^verbatim>\<open>AsyncQueue\<close> of the wire package, which is not
  part of the sources. \<open>inbound\<close> holds the messages the server delivers, in
  order; \<open>trace\<close> records the client's sends and awaits. \<open>send\<close> enqueues one
  outbound message and does not wait; \<open>reply\<close> takes the next inbound message,
  which must be of one of the expected kinds.
\<close>

record AsyncQueue =
  inbound :: "server_message list"
  trace :: "event list"

definition send :: "client_message \<Rightarrow> AsyncQueue \<Rightarrow> AsyncQueue" where
  "send m q = q\<lparr>trace := trace q @ [Sent m]\<rparr>"

definition reply :: "server_kind list \<Rightarrow> AsyncQueue \<Rightarrow> (fault + server_message) \<times> AsyncQueue" where
  "reply expected q =
     (let q' = q\<lparr>trace := trace q @ [Awaited expected]\<rparr> in
      case inbound q of
        [] \<Rightarrow> (Inl Blocked, q')
      | m # ms \<Rightarrow>
          if kind_of m \<in> set expected then (Inr m, q'\<lparr>inbound := ms\<rparr>)
          else (Inl Desync, q'\<lparr>inbound := ms\<rparr>))"

section \<open>Simple query executor\<close>

text \<open>
  The \<^verbatim>\<open>while (true)\<close> loop of \<^verbatim>\<open>runQuery\<close>: each iteration awaits a data row
  or command-complete; \<^verbatim>\<open>'commandTag' in result\<close> ends the loop, otherwise the
  row of column texts is pushed. Every iteration consumes one inbound message,
  so the loop is a total function of the queue.
\<close>

function runQuery_loop ::
  "string list list \<Rightarrow> AsyncQueue \<Rightarrow> (fault + string list list) \<times> AsyncQueue" where
  "runQuery_loop resultRows q =
     (case reply [dataRow, commandComplete] q of
        (Inl e, q') \<Rightarrow> (Inl e, q')
      | (Inr result, q') \<Rightarrow>
          (case result of
             CommandComplete commandTag \<Rightarrow> (Inr resultRows, q')
           | DataRow columns \<Rightarrow> runQuery_loop (resultRows @ [map value_of columns]) q'
           | _ \<Rightarrow> (Inl TypeError, q')))"
  by pat_completeness auto
termination
  by (relation "measure (\<lambda>(resultRows, q). length (inbound q))")
     (auto simp: reply_def Let_def split: list.splits if_splits)

declare runQuery_loop.simps [simp del]

definition runQuery :: "string \<Rightarrow> AsyncQueue \<Rightarrow> (fault + string list list) \<times> AsyncQueue" where
  "runQuery query q0 =
     (let q1 = send (Query query) q0 in
      case reply [rowDescription] q1 of
        (Inl e, q2) \<Rightarrow> (Inl e, q2)
      | (Inr result, q2) \<Rightarrow> runQuery_loop [] q2)"

section \<open>JavaScript helpers\<close>

text \<open>
  \<^verbatim>\<open>Number.prototype.toString\<close> on the integers the module formats (array
  lengths, object identifiers, attribute numbers): decimal digits, with a
  leading minus sign for a negative number.
\<close>

definition digit_char :: "nat \<Rightarrow> char" where
  "digit_char d = ''0123456789'' ! d"

function nat_toString :: "nat \<Rightarrow> string" where
  "nat_toString n =
     (if n < 10 then [digit_char n] else nat_toString (n div 10) @ [digit_char (n mod 10)])"
  by pat_completeness auto
termination
  by (relation "measure (\<lambda>n. n)") auto

declare nat_toString.simps [simp del]

definition number_toString :: "int \<Rightarrow> string" where
  "number_toString i =
     (if i < 0 then CHR ''-'' # nat_toString (nat (- i)) else nat_toString (nat i))"

text \<open>\<^verbatim>\<open>Array.prototype.join\<close> on an array of texts.\<close>

fun join :: "string \<Rightarrow> string list \<Rightarrow> string" where
  "join sep [] = []"
| "join sep [x] = x"
| "join sep (x # y # ys) = x @ sep @ join sep (y # ys)"

text \<open>
  Reading an array by index and destructuring a row give \<^verbatim>\<open>undefined\<close> past the
  end; a computed property key made from \<^verbatim>\<open>undefined\<close> is the text
  \<^verbatim>\<open>"undefined"\<close>; reading a property that an object does not have gives
  \<^verbatim>\<open>undefined\<close>.
\<close>

definition nth_opt :: "'a list \<Rightarrow> nat \<Rightarrow> 'a option" where
  "nth_opt xs i = (if i < length xs then Some (xs ! i) else None)"

fun property_key :: "string option \<Rightarrow> string" where
  "property_key None = ''undefined''"
| "property_key (Some s) = s"

definition get_property :: "(string \<rightharpoonup> 'a option) \<Rightarrow> string \<Rightarrow> 'a option" where
  "get_property obj k = (case obj k of None \<Rightarrow> None | Some v \<Rightarrow> v)"

section \<open>Placeholder desugarer\<close>

text \<open>The class \<^verbatim>\<open>\w\<close> of the pattern \<^verbatim>\<open>/:(\w*)/g\<close>: ASCII letters, digits, underscore.\<close>

definition word_chars :: string where
  "word_chars =
     ''abcdefghijklmnopqrstuvwxyz'' @ ''ABCDEFGHIJKLMNOPQRSTUVWXYZ'' @ ''0123456789'' @ ''_''"

definition is_word_char :: "char \<Rightarrow> bool" where
  "is_word_char c = (c \<in> set word_chars)"

text \<open>
  \<^verbatim>\<open>query.replace(placeholderRegex, callback)\<close>: the global pattern is matched
  from left to right; a match starts at a colon and takes the longest run of
  word characters after it; the callback pushes the captured name and returns
  \<^verbatim>\<open>$\<close> followed by the new length of \<^verbatim>\<open>paramNames\<close>; scanning resumes after the
  match. The first argument is the text still to scan, \<open>out\<close> the result text
  built so far.
\<close>

function replace_placeholders :: "string \<Rightarrow> string \<Rightarrow> string list \<Rightarrow> string \<times> string list" where
  "replace_placeholders [] out paramNames = (out, paramNames)"
| "replace_placeholders (c # cs) out paramNames =
     (if c = CHR '':'' then
        (let paramName = takeWhile is_word_char cs;
             paramNames' = paramNames @ [paramName];
             replacement = ''$'' @ number_toString (int (length paramNames'))
         in replace_placeholders (dropWhile is_word_char cs) (out @ replacement) paramNames')
      else replace_placeholders cs (out @ [c]) paramNames)"
  by pat_completeness auto
termination
  by (relation "measure (\<lambda>(cs, out, paramNames). length cs)")
     (auto simp: length_dropWhile_le less_Suc_eq_le)

record Desugared =
  desugaredQuery :: string
  paramNames :: "string list"

definition desugarQuery :: "string \<Rightarrow> Desugared" where
  "desugarQuery query =
     (case replace_placeholders query [] [] of
        (text, names) \<Rightarrow> \<lparr>desugaredQuery = text, paramNames = names\<rparr>)"

section \<open>Type probe\<close>

record ParseError =
  errorCode :: "string option"
  hint :: "string option"
  message :: "string option"
  position :: "string option"

record TypeData =
  fields' :: "field_descr list"
  params :: "param list"

text \<open>
  The membership tests of \<^verbatim>\<open>getTypeData\<close> on a reply.
  \<^verbatim>\<open>'fields' in parseResult\<close> holds for an error response (and for a row
  description, which the first await does not admit) and fails for
  parse-complete; \<open>errorFields_of\<close> is the \<^verbatim>\<open>fields\<close> dictionary of an error
  response. \<^verbatim>\<open>'params' in paramsResult ? paramsResult.params : []\<close> and
  \<^verbatim>\<open>'fields' in fieldsResult ? fieldsResult.fields : []\<close> are \<open>params_of\<close> and
  \<open>fields_of\<close>, on the kinds their awaits admit.
\<close>

fun has_fields :: "server_message \<Rightarrow> bool" where
  "has_fields (ErrorResponse errorFields) = True"
| "has_fields (RowDescription fs) = True"
| "has_fields _ = False"

fun errorFields_of :: "server_message \<Rightarrow> (string \<rightharpoonup> string)" where
  "errorFields_of (ErrorResponse errorFields) = errorFields"
| "errorFields_of _ = Map.empty"

fun params_of :: "server_message \<Rightarrow> param list" where
  "params_of (ParameterDescription ps) = ps"
| "params_of _ = []"

fun fields_of :: "server_message \<Rightarrow> field_descr list" where
  "fields_of (RowDescription fs) = fs"
| "fields_of _ = []"

text \<open>
  \<^verbatim>\<open>getTypeData\<close>: four sends, then the awaits; the error case returns at
  once. The result is the source's union \<^verbatim>\<open>TypeData\<close>: \<open>Inl\<close> the parse
  error, \<open>Inr\<close> the parameters and fields (the property \<^verbatim>\<open>fields\<close> is
  written \<open>fields'\<close>, the plain name being taken by the record package).
\<close>

definition getTypeData ::
  "string \<Rightarrow> string \<Rightarrow> AsyncQueue \<Rightarrow> (fault + (ParseError + TypeData)) \<times> AsyncQueue" where
  "getTypeData query stmt q0 =
     (let q1 = send (Parse stmt query []) q0;
          q2 = send (Describe stmt Statement) q1;
          q3 = send (Close Statement stmt) q2;
          q4 = send Flush q3
      in case reply [errorResponse, parseComplete] q4 of
           (Inl e, q5) \<Rightarrow> (Inl e, q5)
         | (Inr parseResult, q5) \<Rightarrow>
             if has_fields parseResult then
               (let errorFields = errorFields_of parseResult in
                (Inr (Inl \<lparr>errorCode = errorFields ''R'', hint = errorFields ''H'',
                           message = errorFields ''M'', position = errorFields ''P''\<rparr>), q5))
             else
               (case reply [parameterDescription, noData] q5 of
                  (Inl e, q6) \<Rightarrow> (Inl e, q6)
                | (Inr paramsResult, q6) \<Rightarrow>
                    (case reply [rowDescription, noData] q6 of
                       (Inl e, q7) \<Rightarrow> (Inl e, q7)
                     | (Inr fieldsResult, q7) \<Rightarrow>
                         (case reply [closeComplete] q7 of
                            (Inl e, q8) \<Rightarrow> (Inl e, q8)
                          | (Inr closed, q8) \<Rightarrow>
                              (Inr (Inr \<lparr>fields' = fields_of fieldsResult,
                                         params = params_of paramsResult\<rparr>), q8)))))"

section \<open>Type resolver\<close>

text \<open>
  A property of an object literal built with a spread is either absent or
  present with a value.
\<close>

datatype 'a property = Absent | Present 'a

datatype attrInfo = AttrInfo (attr_columnName: "string option") (attr_nullable: bool)

record returnType =
  columnName :: "string option property"
  nullable :: "bool property"
  returnName :: string
  typeName :: "string option"

record TQueryTypes =
  paramTypes :: "string \<rightharpoonup> string option"
  returnTypes :: "returnType list"

text \<open>The text of the first catalog query, over \<^verbatim>\<open>usedTypesOIDs.join(',')\<close>.\<close>

definition typeQuery :: "int list \<Rightarrow> string" where
  "typeQuery usedTypesOIDs =
     ''select oid, typname from pg_type where oid in (''
       @ join '','' (map number_toString usedTypesOIDs) @ '')''"

text \<open>
  \<^verbatim>\<open>typeRows.reduce((acc, [oid, typeName]) => ({ ...acc, [oid]: typeName }), {})\<close>
\<close>

definition typeMap_of :: "string list list \<Rightarrow> (string \<rightharpoonup> string option)" where
  "typeMap_of typeRows =
     foldl (\<lambda>acc row. acc(property_key (nth_opt row 0) \<mapsto> nth_opt row 1)) Map.empty typeRows"

definition attrMatcher :: "field_descr \<Rightarrow> string" where
  "attrMatcher f =
     ''(attrelid = '' @ number_toString (tableOID f)
       @ '' and attnum = '' @ number_toString (columnAttrNumber f) @ '')''"

text \<open>
  \<^verbatim>\<open>attrSelection\<close> is a text or the boolean \<^verbatim>\<open>false\<close>; the template literal of the
  second catalog query converts it to text.
\<close>

datatype selection = Predicate string | JsFalse

definition attrSelection :: "field_descr list \<Rightarrow> selection" where
  "attrSelection fs =
     (if length fs > 0 then Predicate (join '' or '' (map attrMatcher fs)) else JsFalse)"

fun selection_toString :: "selection \<Rightarrow> string" where
  "selection_toString (Predicate s) = s"
| "selection_toString JsFalse = ''false''"

definition attributeQuery :: "selection \<Rightarrow> string" where
  "attributeQuery sel =
     ''select'' @ [CHR 0x0A]
       @ ''      (attrelid || '' @ [CHR 0x27] @ '':'' @ [CHR 0x27]
       @ '' || attnum) as attid, attname, attnotnull'' @ [CHR 0x0A]
       @ ''     from pg_attribute where '' @ selection_toString sel @ '';''"

text \<open>
  The fold that builds \<^verbatim>\<open>attrMap\<close>: the entry of a row is keyed by its first
  column and holds the second as \<^verbatim>\<open>columnName\<close> and
  \<^verbatim>\<open>attnotnull !== 't'\<close> as \<^verbatim>\<open>nullable\<close>.
\<close>

definition attrEntry :: "string list \<Rightarrow> attrInfo" where
  "attrEntry row = AttrInfo (nth_opt row 1) (nth_opt row 2 \<noteq> Some ''t'')"

definition attrMap_of :: "string list list \<Rightarrow> (string \<rightharpoonup> attrInfo)" where
  "attrMap_of attributeRows =
     foldl (\<lambda>acc row. acc(property_key (nth_opt row 0) \<mapsto> attrEntry row)) Map.empty attributeRows"

definition attrKey :: "field_descr \<Rightarrow> string" where
  "attrKey f = number_toString (tableOID f) @ '':'' @ number_toString (columnAttrNumber f)"

text \<open>
  One element of \<^verbatim>\<open>returnTypes\<close>: the spread of \<^verbatim>\<open>attrMap[key]\<close> contributes
  \<^verbatim>\<open>columnName\<close> and \<^verbatim>\<open>nullable\<close> when the entry exists and nothing when it is
  \<^verbatim>\<open>undefined\<close>.
\<close>

definition returnTypeOf ::
  "(string \<rightharpoonup> attrInfo) \<Rightarrow> (string \<rightharpoonup> string option) \<Rightarrow> field_descr \<Rightarrow> returnType" where
  "returnTypeOf attrMap typeMap f =
     (case attrMap (attrKey f) of
        None \<Rightarrow>
          \<lparr>columnName = Absent, nullable = Absent, returnName = name f,
           typeName = get_property typeMap (number_toString (typeOID f))\<rparr>
      | Some info \<Rightarrow>
          \<lparr>columnName = Present (attr_columnName info), nullable = Present (attr_nullable info),
           returnName = name f,
           typeName = get_property typeMap (number_toString (typeOID f))\<rparr>)"

text \<open>
  The assignment \<^verbatim>\<open>paramTypes[paramName] = paramType\<close> onto an object created as
  \<^verbatim>\<open>{}\<close>, the value being a text or \<^verbatim>\<open>undefined\<close>. The maps of this theory
  hold the own properties of an object. Under any key but one the assignment
  stores an own property. The key \<^verbatim>\<open>__proto__\<close> is an accessor that every such
  object inherits, and its setter ignores a value that is neither an object nor
  \<^verbatim>\<open>null\<close>: the assignment stores nothing.
\<close>

definition assign_property ::
  "(string \<rightharpoonup> string option) \<Rightarrow> string \<Rightarrow> string option \<Rightarrow> (string \<rightharpoonup> string option)" where
  "assign_property obj k v = (if k = ''__proto__'' then obj else obj(k \<mapsto> v))"

text \<open>
  \<^verbatim>\<open>params.forEach((param, index) => ...)\<close>: the loop runs over the parameters the
  server reported; \<^verbatim>\<open>paramNames[index]\<close> is \<^verbatim>\<open>undefined\<close> past the end of the
  recorded names, and the assignment then writes the key \<^verbatim>\<open>"undefined"\<close>.
\<close>

fun paramTypes_loop ::
  "param list \<Rightarrow> nat \<Rightarrow> string list \<Rightarrow> (string \<rightharpoonup> string option)
     \<Rightarrow> (string \<rightharpoonup> string option) \<Rightarrow> (string \<rightharpoonup> string option)" where
  "paramTypes_loop [] index names typeMap acc = acc"
| "paramTypes_loop (p # ps) index names typeMap acc =
     (let paramName = nth_opt names index;
          paramType = get_property typeMap (number_toString (oid p))
      in paramTypes_loop ps (Suc index) names typeMap
           (assign_property acc (property_key paramName) paramType))"

definition getTypes ::
  "string \<Rightarrow> string \<Rightarrow> AsyncQueue \<Rightarrow> (fault + (ParseError + TQueryTypes)) \<times> AsyncQueue" where
  "getTypes query stmt q0 =
     (let d = desugarQuery query in
      case getTypeData (desugaredQuery d) stmt q0 of
        (Inl e, q1) \<Rightarrow> (Inl e, q1)
      | (Inr (Inl parseError), q1) \<Rightarrow> (Inr (Inl parseError), q1)
      | (Inr (Inr typeData), q1) \<Rightarrow>
          (let paramTypeOIDs = map oid (params typeData);
               returnTypesOIDs = map typeOID (fields' typeData);
               usedTypesOIDs = paramTypeOIDs @ returnTypesOIDs
           in case runQuery (typeQuery usedTypesOIDs) q1 of
                (Inl e, q2) \<Rightarrow> (Inl e, q2)
              | (Inr typeRows, q2) \<Rightarrow>
                  (let typeMap = typeMap_of typeRows in
                   case runQuery (attributeQuery (attrSelection (fields' typeData))) q2 of
                     (Inl e, q3) \<Rightarrow> (Inl e, q3)
                   | (Inr attributeRows, q3) \<Rightarrow>
                       (let attrMap = attrMap_of attributeRows in
                        (Inr (Inr
                           \<lparr>paramTypes =
                              paramTypes_loop (params typeData) 0 (paramNames d) typeMap Map.empty,
                            returnTypes = map (returnTypeOf attrMap typeMap) (fields' typeData)\<rparr>),
                         q3)))))"

section \<open>The desugarer and the attribute selection as the specification words them\<close>

text \<open>
  The specification describes the desugarer by its matches: a token is a colon
  followed by zero or more identifier characters, and the k-th token becomes
  \<^verbatim>\<open>$k\<close>. A text is then a plain part (no colon) followed by segments, each
  a colon, a name of word characters, and a plain rest that does not begin
  with a word character (the name is the longest run). \<open>placeholder_text\<close>
  assembles the source text of a list of segments, \<open>positional_text k\<close> the text
  with the markers \<^verbatim>\<open>$k\<close>, \<^verbatim>\<open>$(k+1)\<close>, ... in their place.
\<close>

fun placeholder_text :: "(string \<times> string) list \<Rightarrow> string" where
  "placeholder_text [] = []"
| "placeholder_text ((n, s) # segs) = CHR '':'' # n @ s @ placeholder_text segs"

fun positional_text :: "nat \<Rightarrow> (string \<times> string) list \<Rightarrow> string" where
  "positional_text k [] = []"
| "positional_text k ((n, s) # segs) =
     ''$'' @ number_toString (int k) @ s @ positional_text (Suc k) segs"

fun plain_text :: "string \<Rightarrow> bool" where
  "plain_text s = (CHR '':'' \<notin> set s)"

fun segment :: "string \<times> string \<Rightarrow> bool" where
  "segment (n, s) =
     (list_all is_word_char n \<and> plain_text s \<and> (case s of [] \<Rightarrow> True | c # cs \<Rightarrow> \<not> is_word_char c))"

text \<open>
  The specification words the attribute selection as a disjunction over the
  fields that carry a non-zero table reference, and as the always-false
  predicate when no field carries one.
\<close>

definition attrSelection_by_reference :: "field_descr list \<Rightarrow> selection" where
  "attrSelection_by_reference fs =
     (let referenced = filter (\<lambda>f. tableOID f \<noteq> 0) fs in
      if referenced = [] then JsFalse else Predicate (join '' or '' (map attrMatcher referenced)))"

section \<open>Example exchanges\<close>

text \<open>
  A server that rejects the statement at parse time, and a server that answers
  a type-name lookup with two rows.
\<close>

definition example_rejecting_queue :: AsyncQueue where
  "example_rejecting_queue =
     \<lparr>inbound = [ErrorResponse [''R'' \<mapsto> ''scanner_yyerror'', ''M'' \<mapsto> ''syntax error'',
                                ''P'' \<mapsto> ''8'']],
      trace = []\<rparr>"

definition example_catalog_queue :: AsyncQueue where
  "example_catalog_queue =
     \<lparr>inbound = [RowDescription [], DataRow [Column ''23'', Column ''int4''],
                 DataRow [Column ''25'', Column ''text''], CommandComplete ''SELECT 2''],
      trace = []\<rparr>"

text \<open>
  A server that rejects the statement with an error response as the wire
  protocol lays it out: severity \<^verbatim>\<open>S\<close>, code \<^verbatim>\<open>C\<close>, message \<^verbatim>\<open>M\<close>, position
  \<^verbatim>\<open>P\<close> and reporting routine \<^verbatim>\<open>R\<close>.
\<close>

definition example_sqlstate_queue :: AsyncQueue where
  "example_sqlstate_queue =
     \<lparr>inbound = [ErrorResponse [''S'' \<mapsto> ''ERROR'', ''C'' \<mapsto> ''42601'',
                                ''M'' \<mapsto> ''syntax error'', ''P'' \<mapsto> ''1'',
                                ''R'' \<mapsto> ''scanner_yyerror'']],
      trace = []\<rparr>"

text \<open>
  A server that accepts a statement with one parameter and no result columns,
  with nothing after the probe.
\<close>

definition example_described_queue :: AsyncQueue where
  "example_described_queue =
     \<lparr>inbound = [ParseComplete, ParameterDescription [\<lparr>oid = 23\<rparr>], NoData, CloseComplete],
      trace = []\<rparr>"

text \<open>
  A full resolution of a \<^verbatim>\<open>select\<close> with three result fields: an expression
  (no table reference) and two columns of table 16384; the type lookup returns
  two rows, the attribute lookup one row per table column, the first not null
  and the second nullable. The parameter description is left open.
\<close>

definition expression_field :: field_descr where
  "expression_field =
     \<lparr>name = ''one'', tableOID = 0, columnAttrNumber = 0, typeOID = 23, typeSize = 4,
      typeModifier = - 1, formatCode = 0\<rparr>"

definition example_fields :: "field_descr list" where
  "example_fields =
     [expression_field,
      \<lparr>name = ''name'', tableOID = 16384, columnAttrNumber = 2, typeOID = 25, typeSize = - 1,
       typeModifier = - 1, formatCode = 0\<rparr>,
      \<lparr>name = ''email'', tableOID = 16384, columnAttrNumber = 3, typeOID = 25, typeSize = - 1,
       typeModifier = - 1, formatCode = 0\<rparr>]"

definition example_type_rows :: "column list list" where
  "example_type_rows = [[Column ''23'', Column ''int4''], [Column ''25'', Column ''text'']]"

definition example_attribute_rows :: "column list list" where
  "example_attribute_rows =
     [[Column ''16384:2'', Column ''name'', Column ''t''],
      [Column ''16384:3'', Column ''email'', Column ''f'']]"

definition example_resolving_queue :: "param list \<Rightarrow> AsyncQueue" where
  "example_resolving_queue ps =
     \<lparr>inbound = ParseComplete # ParameterDescription ps # RowDescription example_fields
                 # CloseComplete # RowDescription [] # map DataRow example_type_rows
                 @ CommandComplete ''SELECT 2'' # RowDescription []
                 # map DataRow example_attribute_rows @ CommandComplete ''SELECT 2'' # [],
      trace = []\<rparr>"

text \<open>
  A full resolution of a statement without result columns (the server answers
  the describe with no-data); the attribute lookup returns no row.
\<close>

definition example_insert_queue :: "param list \<Rightarrow> AsyncQueue" where
  "example_insert_queue ps =
     \<lparr>inbound = ParseComplete # ParameterDescription ps # NoData # CloseComplete
                 # RowDescription [] # map DataRow [[Column ''23'', Column ''int4'']]
                 @ CommandComplete ''SELECT 1'' # RowDescription []
                 # map DataRow [] @ CommandComplete ''SELECT 0'' # [],
      trace = []\<rparr>"

section \<open>Observations on a trace\<close>

text \<open>The messages handed to \<^verbatim>\<open>queue.send\<close>, in order, and the texts of the simple queries among them.\<close>

fun sent_messages :: "event list \<Rightarrow> client_message list" where
  "sent_messages [] = []"
| "sent_messages (Sent m # es) = m # sent_messages es"
| "sent_messages (Awaited ks # es) = sent_messages es"

fun query_texts :: "event list \<Rightarrow> string list" where
  "query_texts [] = []"
| "query_texts (Sent (Query text) # es) = text # query_texts es"
| "query_texts (e # es) = query_texts es"

section \<open>Properties of the sequencer, the query executor and the probe\<close>

lemma send_eq: "send m q = \<lparr>inbound = inbound q, trace = trace q @ [Sent m]\<rparr>"
  by (simp add: send_def)

lemma reply_expected:
  "inbound q = m # ms \<Longrightarrow> kind_of m \<in> set expected \<Longrightarrow>
   reply expected q = (Inr m, \<lparr>inbound = ms, trace = trace q @ [Awaited expected]\<rparr>)"
  by (simp add: reply_def)

lemma reply_trace: "trace (snd (reply expected q)) = trace q @ [Awaited expected]"
  by (simp add: reply_def Let_def split: list.splits)

lemma reply_Inr:
  "reply expected q = (Inr m, q') \<Longrightarrow>
   inbound q = m # inbound q' \<and> kind_of m \<in> set expected \<and> trace q' = trace q @ [Awaited expected]"
  by (auto simp: reply_def Let_def split: list.splits if_splits)

lemma runQuery_loop_rows:
  "inbound q = map DataRow rows @ CommandComplete tag # rest \<Longrightarrow>
   runQuery_loop acc q =
     (Inr (acc @ map (map value_of) rows),
      \<lparr>inbound = rest,
       trace = trace q @ replicate (Suc (length rows)) (Awaited [dataRow, commandComplete])\<rparr>)"
proof (induction rows arbitrary: acc q)
  case Nil
  then show ?case
    by (subst runQuery_loop.simps) (simp add: reply_expected)
next
  case (Cons r rows)
  let ?q' = "\<lparr>inbound = map DataRow rows @ CommandComplete tag # rest,
              trace = trace q @ [Awaited [dataRow, commandComplete]]\<rparr>"
  from Cons.prems have step: "reply [dataRow, commandComplete] q = (Inr (DataRow r), ?q')"
    by (simp add: reply_expected)
  have "runQuery_loop acc q = runQuery_loop (acc @ [map value_of r]) ?q'"
    by (subst runQuery_loop.simps) (simp add: step)
  also have "\<dots> = (Inr ((acc @ [map value_of r]) @ map (map value_of) rows),
      \<lparr>inbound = rest,
       trace = trace ?q' @ replicate (Suc (length rows)) (Awaited [dataRow, commandComplete])\<rparr>)"
    by (rule Cons.IH) simp
  finally show ?case by (simp add: replicate_append_same)
qed

lemma runQuery_rows:
  "inbound q = RowDescription fs # map DataRow rows @ CommandComplete tag # rest \<Longrightarrow>
   runQuery query q =
     (Inr (map (map value_of) rows),
      \<lparr>inbound = rest,
       trace = trace q @ [Sent (Query query), Awaited [rowDescription]]
                 @ replicate (Suc (length rows)) (Awaited [dataRow, commandComplete])\<rparr>)"
proof -
  assume a: "inbound q = RowDescription fs # map DataRow rows @ CommandComplete tag # rest"
  let ?q2 = "\<lparr>inbound = map DataRow rows @ CommandComplete tag # rest,
              trace = trace q @ [Sent (Query query), Awaited [rowDescription]]\<rparr>"
  have "reply [rowDescription] (send (Query query) q) = (Inr (RowDescription fs), ?q2)"
    using a by (simp add: reply_expected send_eq)
  then have "runQuery query q = runQuery_loop [] ?q2"
    by (simp add: runQuery_def)
  then show ?thesis
    by (simp add: runQuery_loop_rows)
qed

lemma sent_messages_append [simp]:
  "sent_messages (es @ es') = sent_messages es @ sent_messages es'"
  by (induction es rule: sent_messages.induct) simp_all

lemma reply_result_trace:
  "reply expected q = (r, q') \<Longrightarrow> trace q' = trace q @ [Awaited expected]"
  by (auto simp: reply_def Let_def split: list.splits if_splits)

lemma getTypeData_error_response:
  assumes "inbound q = ErrorResponse errorFields # rest"
  shows "getTypeData query stmt q =
     (Inr (Inl \<lparr>errorCode = errorFields ''R'', hint = errorFields ''H'',
                message = errorFields ''M'', position = errorFields ''P''\<rparr>),
      \<lparr>inbound = rest,
       trace = trace q @ [Sent (Parse stmt query []), Sent (Describe stmt Statement),
                 Sent (Close Statement stmt), Sent Flush,
                 Awaited [errorResponse, parseComplete]]\<rparr>)"
  using assms by (simp add: getTypeData_def send_eq reply_expected)

lemma getTypeData_described:
  assumes "inbound q = ParseComplete # pd # rd # CloseComplete # rest"
    and "kind_of pd = parameterDescription \<or> kind_of pd = noData"
    and "kind_of rd = rowDescription \<or> kind_of rd = noData"
  shows "getTypeData query stmt q =
     (Inr (Inr \<lparr>fields' = fields_of rd, params = params_of pd\<rparr>),
      \<lparr>inbound = rest,
       trace = trace q @ [Sent (Parse stmt query []), Sent (Describe stmt Statement),
                 Sent (Close Statement stmt), Sent Flush,
                 Awaited [errorResponse, parseComplete],
                 Awaited [parameterDescription, noData],
                 Awaited [rowDescription, noData],
                 Awaited [closeComplete]]\<rparr>)"
proof -
  let ?q4 = "\<lparr>inbound = inbound q,
       trace = trace q @ [Sent (Parse stmt query []), Sent (Describe stmt Statement),
                 Sent (Close Statement stmt), Sent Flush]\<rparr>"
  let ?q5 = "\<lparr>inbound = pd # rd # CloseComplete # rest,
       trace = trace ?q4 @ [Awaited [errorResponse, parseComplete]]\<rparr>"
  let ?q6 = "\<lparr>inbound = rd # CloseComplete # rest,
       trace = trace ?q5 @ [Awaited [parameterDescription, noData]]\<rparr>"
  let ?q7 = "\<lparr>inbound = CloseComplete # rest,
       trace = trace ?q6 @ [Awaited [rowDescription, noData]]\<rparr>"
  let ?q8 = "\<lparr>inbound = rest, trace = trace ?q7 @ [Awaited [closeComplete]]\<rparr>"
  have r5: "reply [errorResponse, parseComplete] ?q4 = (Inr ParseComplete, ?q5)"
    using assms(1) by (simp add: reply_expected)
  have r6: "reply [parameterDescription, noData] ?q5 = (Inr pd, ?q6)"
    using assms(2) by (intro reply_expected) auto
  have r7: "reply [rowDescription, noData] ?q6 = (Inr rd, ?q7)"
    using assms(3) by (intro reply_expected) auto
  have r8: "reply [closeComplete] ?q7 = (Inr CloseComplete, ?q8)"
    by (intro reply_expected) auto
  have "getTypeData query stmt q =
      (Inr (Inr \<lparr>fields' = fields_of rd, params = params_of pd\<rparr>), ?q8)"
    unfolding getTypeData_def send_eq Let_def
    by (simp add: r5 r6[simplified] r7[simplified] r8[simplified])
  then show ?thesis by simp
qed

lemma getTypeData_trace_cases:
  fixes query stmt q
  defines "r \<equiv> getTypeData query stmt q"
  defines "base \<equiv> trace q @ [Sent (Parse stmt query []), Sent (Describe stmt Statement),
                  Sent (Close Statement stmt), Sent Flush]"
  shows "(trace (snd r) = base @ [Awaited [errorResponse, parseComplete]]
            \<and> (\<forall>td. fst r \<noteq> Inr (Inr td)))
       \<or> (trace (snd r) = base @ [Awaited [errorResponse, parseComplete],
                                   Awaited [parameterDescription, noData]]
            \<and> (\<exists>e. fst r = Inl e))
       \<or> (trace (snd r) = base @ [Awaited [errorResponse, parseComplete],
                                   Awaited [parameterDescription, noData],
                                   Awaited [rowDescription, noData]]
            \<and> (\<exists>e. fst r = Inl e))
       \<or> (trace (snd r) = base @ [Awaited [errorResponse, parseComplete],
                                   Awaited [parameterDescription, noData],
                                   Awaited [rowDescription, noData],
                                   Awaited [closeComplete]]
            \<and> (\<forall>e. fst r \<noteq> Inr (Inl e)))"
proof -
  let ?q4 = "\<lparr>inbound = inbound q, trace = base\<rparr>"
  obtain r5 q5 where r5: "reply [errorResponse, parseComplete] ?q4 = (r5, q5)" by force
  obtain r6 q6 where r6: "reply [parameterDescription, noData] q5 = (r6, q6)" by force
  obtain r7 q7 where r7: "reply [rowDescription, noData] q6 = (r7, q7)" by force
  obtain r8 q8 where r8: "reply [closeComplete] q7 = (r8, q8)" by force
  have t5: "trace q5 = base @ [Awaited [errorResponse, parseComplete]]"
    using reply_result_trace[OF r5] by simp
  have t6: "trace q6 = base @ [Awaited [errorResponse, parseComplete],
                               Awaited [parameterDescription, noData]]"
    using reply_result_trace[OF r6] t5 by simp
  have t7: "trace q7 = base @ [Awaited [errorResponse, parseComplete],
                               Awaited [parameterDescription, noData],
                               Awaited [rowDescription, noData]]"
    using reply_result_trace[OF r7] t6 by simp
  have t8: "trace q8 = base @ [Awaited [errorResponse, parseComplete],
                               Awaited [parameterDescription, noData],
                               Awaited [rowDescription, noData],
                               Awaited [closeComplete]]"
    using reply_result_trace[OF r8] t7 by simp
  have q4: "send Flush (send (Close Statement stmt) (send (Describe stmt Statement)
              (send (Parse stmt query []) q))) = ?q4"
    by (simp add: send_eq base_def)
  have r: "r = (case r5 of Inl e \<Rightarrow> (Inl e, q5)
     | Inr m \<Rightarrow> if has_fields m then
           (Inr (Inl \<lparr>errorCode = errorFields_of m ''R'', hint = errorFields_of m ''H'',
                      message = errorFields_of m ''M'', position = errorFields_of m ''P''\<rparr>), q5)
       else (case r6 of Inl e \<Rightarrow> (Inl e, q6)
           | Inr pd \<Rightarrow> (case r7 of Inl e \<Rightarrow> (Inl e, q7)
              | Inr rd \<Rightarrow> (case r8 of Inl e \<Rightarrow> (Inl e, q8)
                 | Inr c \<Rightarrow> (Inr (Inr \<lparr>fields' = fields_of rd, params = params_of pd\<rparr>), q8)))))"
    unfolding r_def getTypeData_def Let_def q4 r5 r6 r7 r8 prod.case ..
  show ?thesis
    by (cases r5; cases r6; cases r7; cases r8) (simp_all add: r t5 t6 t7 t8)
qed

lemma query_texts_append [simp]:
  "query_texts (es @ es') = query_texts es @ query_texts es'"
  by (induction es rule: query_texts.induct) simp_all

lemma runQuery_loop_Inr:
  "runQuery_loop acc q = (Inr resultRows, q') \<Longrightarrow>
   \<exists>rows tag. inbound q = map DataRow rows @ CommandComplete tag # inbound q'
      \<and> resultRows = acc @ map (map value_of) rows"
proof (induction acc q rule: runQuery_loop.induct)
  case (1 acc q)
  obtain r q1 where r: "reply [dataRow, commandComplete] q = (r, q1)" by force
  show ?case
  proof (cases r)
    case (Inl e)
    with r "1.prems" show ?thesis
      by (subst (asm) runQuery_loop.simps) simp
  next
    case (Inr m)
    with r have "reply [dataRow, commandComplete] q = (Inr m, q1)" by simp
    from reply_Inr[OF this] have inb: "inbound q = m # inbound q1" by simp
    show ?thesis
    proof (cases m)
      case (CommandComplete tag)
      with r Inr "1.prems" have "resultRows = acc" "q' = q1"
        by (subst (asm) runQuery_loop.simps, simp)+
      with inb CommandComplete have
        "inbound q = map DataRow [] @ CommandComplete tag # inbound q'
          \<and> resultRows = acc @ map (map value_of) []" by simp
      then show ?thesis by blast
    next
      case (DataRow columns)
      with r Inr "1.prems"
      have rec: "runQuery_loop (acc @ [map value_of columns]) q1 = (Inr resultRows, q')"
        by (subst (asm) runQuery_loop.simps) simp
      from "1.IH"[OF r[symmetric] Inr DataRow rec] obtain rows tag where
        "inbound q1 = map DataRow rows @ CommandComplete tag # inbound q'"
        "resultRows = (acc @ [map value_of columns]) @ map (map value_of) rows" by blast
      with inb DataRow have
        "inbound q = map DataRow (columns # rows) @ CommandComplete tag # inbound q'
          \<and> resultRows = acc @ map (map value_of) (columns # rows)" by simp
      then show ?thesis by blast
    qed (use r Inr "1.prems" in \<open>subst (asm) runQuery_loop.simps, simp\<close>)+
  qed
qed

lemma runQuery_Inr:
  assumes "runQuery query q = (Inr resultRows, q')"
  shows "\<exists>fs rows tag. inbound q = RowDescription fs # map DataRow rows @ CommandComplete tag # inbound q'
      \<and> resultRows = map (map value_of) rows"
proof -
  obtain r q2 where r: "reply [rowDescription] (send (Query query) q) = (r, q2)" by force
  show ?thesis
  proof (cases r)
    case (Inl e)
    with r assms show ?thesis by (simp add: runQuery_def)
  next
    case (Inr m)
    with r have "reply [rowDescription] (send (Query query) q) = (Inr m, q2)" by simp
    from reply_Inr[OF this]
    have "inbound (send (Query query) q) = m # inbound q2" "kind_of m = rowDescription"
      by simp_all
    then obtain fs where inb: "inbound q = RowDescription fs # inbound q2"
      by (cases m) (simp_all add: send_eq)
    from r Inr assms have "runQuery_loop [] q2 = (Inr resultRows, q')"
      by (simp add: runQuery_def)
    from runQuery_loop_Inr[OF this] inb show ?thesis by auto
  qed
qed

lemma runQuery_loop_query_texts:
  "query_texts (trace (snd (runQuery_loop acc q))) = query_texts (trace q)"
proof (induction acc q rule: runQuery_loop.induct)
  case (1 acc q)
  obtain r q1 where r: "reply [dataRow, commandComplete] q = (r, q1)" by force
  from reply_result_trace[OF r] have t: "query_texts (trace q1) = query_texts (trace q)"
    by simp
  show ?case
  proof (cases r)
    case (Inl e)
    with r t show ?thesis by (subst runQuery_loop.simps) simp
  next
    case (Inr m)
    show ?thesis
    proof (cases m)
      case (DataRow columns)
      from "1.IH"[OF r[symmetric] Inr DataRow] t r Inr DataRow show ?thesis
        by (subst runQuery_loop.simps) simp
    qed (use r t Inr in \<open>subst runQuery_loop.simps, simp\<close>)+
  qed
qed

lemma runQuery_query_texts:
  "runQuery query q = (r, q') \<Longrightarrow> query_texts (trace q') = query_texts (trace q) @ [query]"
proof -
  assume a: "runQuery query q = (r, q')"
  obtain r2 q2 where r2: "reply [rowDescription] (send (Query query) q) = (r2, q2)" by force
  from reply_result_trace[OF r2]
  have t: "query_texts (trace q2) = query_texts (trace q) @ [query]"
    by (simp add: send_eq)
  show ?thesis
  proof (cases r2)
    case (Inl e)
    with a r2 t show ?thesis by (auto simp: runQuery_def)
  next
    case (Inr m)
    with a r2 have "q' = snd (runQuery_loop [] q2)" by (auto simp: runQuery_def)
    with t show ?thesis by (simp add: runQuery_loop_query_texts)
  qed
qed

lemma getTypeData_query_texts:
  "getTypeData query stmt q = (r, q') \<Longrightarrow> query_texts (trace q') = query_texts (trace q)"
  using getTypeData_trace_cases[of query stmt q] by auto

section \<open>Properties of the type resolver\<close>

lemma getTypes_parse_error:
  "getTypeData (desugaredQuery (desugarQuery query)) stmt q = (Inr (Inl parseError), q1) \<Longrightarrow>
   getTypes query stmt q = (Inr (Inl parseError), q1)"
  by (simp add: getTypes_def)

lemma getTypes_resolved:
  assumes "getTypeData (desugaredQuery (desugarQuery query)) stmt q = (Inr (Inr typeData), q1)"
    and "runQuery (typeQuery (map oid (params typeData) @ map typeOID (fields' typeData))) q1
           = (Inr typeRows, q2)"
    and "runQuery (attributeQuery (attrSelection (fields' typeData))) q2 = (Inr attributeRows, q3)"
  shows "getTypes query stmt q =
     (Inr (Inr \<lparr>paramTypes = paramTypes_loop (params typeData) 0 (paramNames (desugarQuery query))
                                (typeMap_of typeRows) Map.empty,
                returnTypes = map (returnTypeOf (attrMap_of attributeRows) (typeMap_of typeRows))
                                (fields' typeData)\<rparr>), q3)"
  using assms by (simp add: getTypes_def Let_def)

lemma getTypes_exchange:
  assumes "inbound q = ParseComplete # pd # rd # CloseComplete # RowDescription fs1
             # map DataRow typeData_rows @ CommandComplete tag1 # RowDescription fs2
             # map DataRow attribute_rows @ CommandComplete tag2 # rest"
    and "kind_of pd = parameterDescription \<or> kind_of pd = noData"
    and "kind_of rd = rowDescription \<or> kind_of rd = noData"
  shows "\<exists>q1 q2 q3.
      getTypeData text stmt q = (Inr (Inr \<lparr>fields' = fields_of rd, params = params_of pd\<rparr>), q1)
    \<and> runQuery text1 q1 = (Inr (map (map value_of) typeData_rows), q2)
    \<and> runQuery text2 q2 = (Inr (map (map value_of) attribute_rows), q3)
    \<and> inbound q3 = rest"
proof -
  from getTypeData_described[OF assms] obtain q1 where
    1: "getTypeData text stmt q = (Inr (Inr \<lparr>fields' = fields_of rd, params = params_of pd\<rparr>), q1)"
    and i1: "inbound q1 = RowDescription fs1
             # map DataRow typeData_rows @ CommandComplete tag1 # RowDescription fs2
             # map DataRow attribute_rows @ CommandComplete tag2 # rest"
    by simp
  from runQuery_rows[OF i1] obtain q2 where
    2: "runQuery text1 q1 = (Inr (map (map value_of) typeData_rows), q2)"
    and i2: "inbound q2 = RowDescription fs2
             # map DataRow attribute_rows @ CommandComplete tag2 # rest"
    by simp
  from runQuery_rows[OF i2] obtain q3 where
    3: "runQuery text2 q2 = (Inr (map (map value_of) attribute_rows), q3)"
    and i3: "inbound q3 = rest"
    by simp
  from 1 2 3 i3 show ?thesis by blast
qed

section \<open>Properties of the desugarer\<close>

lemma colon_not_word_char: "\<not> is_word_char CHR '':''"
  by (simp add: is_word_char_def word_chars_def)

lemma replace_placeholders_plain:
  "CHR '':'' \<notin> set s \<Longrightarrow>
   replace_placeholders (s @ t) out names = replace_placeholders t (out @ s) names"
  by (induction s arbitrary: out) auto

lemma takeWhile_name:
  "list_all is_word_char n \<Longrightarrow> (case t of [] \<Rightarrow> True | c # cs \<Rightarrow> \<not> is_word_char c) \<Longrightarrow>
   takeWhile is_word_char (n @ t) = n \<and> dropWhile is_word_char (n @ t) = t"
  by (induction n) (auto split: list.splits)

lemma replace_placeholders_match:
  assumes "list_all is_word_char n" and "case t of [] \<Rightarrow> True | c # cs \<Rightarrow> \<not> is_word_char c"
  shows "replace_placeholders (CHR '':'' # n @ t) out names =
     replace_placeholders t (out @ ''$'' @ number_toString (int (Suc (length names)))) (names @ [n])"
  using takeWhile_name[OF assms] by (simp add: Let_def)

lemma placeholder_text_head:
  "case placeholder_text segs of [] \<Rightarrow> True | c # cs \<Rightarrow> \<not> is_word_char c"
  by (cases segs rule: placeholder_text.cases) (simp_all add: colon_not_word_char)

lemma segment_tail_head:
  "segment (n, s) \<Longrightarrow> case s @ placeholder_text segs of [] \<Rightarrow> True | c # cs \<Rightarrow> \<not> is_word_char c"
  using placeholder_text_head[of segs] by (cases s) simp_all

lemma replace_placeholders_segments:
  "list_all segment segs \<Longrightarrow>
   replace_placeholders (placeholder_text segs) out names =
     (out @ positional_text (Suc (length names)) segs, names @ map fst segs)"
proof (induction segs arbitrary: out names)
  case Nil
  then show ?case by simp
next
  case (Cons seg segs)
  obtain n s where seg: "seg = (n, s)" by (cases seg)
  with Cons.prems have sg: "segment (n, s)" and rest: "list_all segment segs" by simp_all
  from sg have n: "list_all is_word_char n" and s: "CHR '':'' \<notin> set s" by simp_all
  have "replace_placeholders (placeholder_text (seg # segs)) out names =
      replace_placeholders (CHR '':'' # n @ (s @ placeholder_text segs)) out names"
    by (simp add: seg)
  also have "\<dots> = replace_placeholders (s @ placeholder_text segs)
      (out @ ''$'' @ number_toString (int (Suc (length names)))) (names @ [n])"
    by (rule replace_placeholders_match[OF n segment_tail_head[OF sg]])
  also have "\<dots> = replace_placeholders (placeholder_text segs)
      ((out @ ''$'' @ number_toString (int (Suc (length names)))) @ s) (names @ [n])"
    by (rule replace_placeholders_plain[OF s])
  also have "\<dots> = (((out @ ''$'' @ number_toString (int (Suc (length names)))) @ s)
        @ positional_text (Suc (length (names @ [n]))) segs, (names @ [n]) @ map fst segs)"
    by (rule Cons.IH[OF rest])
  finally show ?case by (simp add: seg)
qed

lemma desugarQuery_segments:
  assumes "plain_text s0" and "list_all segment segs"
  shows "desugarQuery (s0 @ placeholder_text segs) =
     \<lparr>desugaredQuery = s0 @ positional_text 1 segs, paramNames = map fst segs\<rparr>"
proof -
  from assms(1) have "replace_placeholders (s0 @ placeholder_text segs) [] [] =
      replace_placeholders (placeholder_text segs) s0 []"
    using replace_placeholders_plain[of s0 "placeholder_text segs" "[]" "[]"] by simp
  also have "\<dots> = (s0 @ positional_text (Suc 0) segs, map fst segs)"
    using replace_placeholders_segments[OF assms(2), of s0 "[]"] by simp
  finally show ?thesis by (simp add: desugarQuery_def)
qed

lemma dropWhile_head:
  "case dropWhile P xs of [] \<Rightarrow> True | c # cs \<Rightarrow> \<not> P c"
  by (induction xs) simp_all

lemma segments_exist:
  "\<exists>s0 segs. query = s0 @ placeholder_text segs \<and> plain_text s0 \<and> list_all segment segs"
proof (induction query rule: length_induct)
  case (1 query)
  show ?case
  proof (cases query)
    case Nil
    then have "query = [] @ placeholder_text [] \<and> plain_text [] \<and> list_all segment []"
      by simp
    then show ?thesis by blast
  next
    case (Cons c cs)
    show ?thesis
    proof (cases "c = CHR '':''")
      case False
      from 1 Cons obtain s0 segs where
        d: "cs = s0 @ placeholder_text segs" "plain_text s0" "list_all segment segs"
        by force
      with False Cons have
        "query = (c # s0) @ placeholder_text segs \<and> plain_text (c # s0) \<and> list_all segment segs"
        by auto
      then show ?thesis by blast
    next
      case True
      let ?n = "takeWhile is_word_char cs" and ?rest = "dropWhile is_word_char cs"
      have "length ?rest < length query"
        using Cons length_dropWhile_le[of is_word_char cs] by simp
      with 1 obtain s0 segs where
        d: "?rest = s0 @ placeholder_text segs" "plain_text s0" "list_all segment segs"
        by blast
      have n: "list_all is_word_char ?n"
        by (auto simp: list_all_iff dest: set_takeWhileD)
      have "case s0 of [] \<Rightarrow> True | c # cs \<Rightarrow> \<not> is_word_char c"
        using dropWhile_head[of is_word_char cs] d(1) by (cases s0) simp_all
      with n d(2) have "segment (?n, s0)" by simp
      moreover have "query = [] @ placeholder_text ((?n, s0) # segs)"
        using Cons True d(1) takeWhile_dropWhile_id[of is_word_char cs] by (simp del: takeWhile_dropWhile_id)
      ultimately have "query = [] @ placeholder_text ((?n, s0) # segs) \<and> plain_text []
          \<and> list_all segment ((?n, s0) # segs)"
        using d(3) by simp
      then show ?thesis by blast
    qed
  qed
qed

lemma digit_char_not_dollar: "d < 10 \<Longrightarrow> digit_char d \<noteq> CHR ''$''"
proof -
  assume "d < 10"
  then have "d \<in> {0, 1, 2, 3, 4, 5, 6, 7, 8, 9}" by auto
  then show ?thesis by (auto simp: digit_char_def)
qed

lemma nat_toString_no_dollar: "CHR ''$'' \<notin> set (nat_toString n)"
proof (induction n rule: nat_toString.induct)
  case (1 n)
  show ?case
  proof (cases "n < 10")
    case True
    then show ?thesis
      using digit_char_not_dollar[of n] by (subst nat_toString.simps) simp
  next
    case False
    with 1 have "CHR ''$'' \<notin> set (nat_toString (n div 10))" by simp
    moreover have "digit_char (n mod 10) \<noteq> CHR ''$''"
      by (rule digit_char_not_dollar) simp
    ultimately show ?thesis
      using False by (subst nat_toString.simps) auto
  qed
qed

lemma count_list_append:
  "count_list (xs @ ys) x = count_list xs x + count_list ys x"
  by (induction xs) simp_all

lemma count_list_absent: "x \<notin> set xs \<Longrightarrow> count_list xs x = 0"
  by (induction xs) auto

lemma count_dollar_number: "count_list (number_toString (int k)) CHR ''$'' = 0"
  by (simp add: number_toString_def count_list_absent nat_toString_no_dollar)

lemma count_colon_name: "count_list (takeWhile is_word_char cs) CHR '':'' = 0"
  by (rule count_list_absent) (auto dest: set_takeWhileD simp: colon_not_word_char)

lemma replace_placeholders_counts:
  "replace_placeholders query out names = (text, names') \<Longrightarrow>
     count_list text CHR ''$'' + length names
       = count_list out CHR ''$'' + count_list query CHR ''$'' + length names'
   \<and> length names' = length names + count_list query CHR '':''"
proof (induction query out names rule: replace_placeholders.induct)
  case (1 out names)
  then show ?case by simp
next
  case (2 c cs out names)
  show ?case
  proof (cases "c = CHR '':''")
    case False
    with 2 show ?thesis by (auto simp: count_list_append)
  next
    case True
    let ?n = "takeWhile is_word_char cs" and ?rest = "dropWhile is_word_char cs"
    let ?out = "out @ ''$'' @ number_toString (int (length (names @ [?n])))"
    from True "2.prems" have r: "replace_placeholders ?rest ?out (names @ [?n]) = (text, names')"
      by (simp add: Let_def)
    from "2.IH"(1)[OF True refl refl refl r]
    have ih: "count_list text CHR ''$'' + length (names @ [?n])
        = count_list ?out CHR ''$'' + count_list ?rest CHR ''$'' + length names'"
      "length names' = length (names @ [?n]) + count_list ?rest CHR '':''"
      by simp_all
    have cs: "count_list cs x = count_list ?n x + count_list ?rest x" for x
      using count_list_append[of ?n ?rest x] by simp
    have nd: "count_list ?n CHR ''$'' = 0"
      by (rule count_list_absent) (auto dest: set_takeWhileD simp: is_word_char_def word_chars_def)
    have o: "count_list ?out CHR ''$'' = count_list out CHR ''$'' + 1"
      using count_dollar_number[of "length (names @ [?n])"]
      by (simp only: count_list_append) simp
    from ih o nd cs[of "CHR ''$''"] cs[of "CHR '':''"] count_colon_name[of cs] True
    show ?thesis by simp
  qed
qed

lemma desugarQuery_counts:
  "count_list (desugaredQuery (desugarQuery query)) CHR ''$''
     = count_list query CHR ''$'' + length (paramNames (desugarQuery query))
   \<and> length (paramNames (desugarQuery query)) = count_list query CHR '':''"
proof -
  obtain out names where r: "replace_placeholders query [] [] = (out, names)" by force
  from replace_placeholders_counts[OF r] r show ?thesis
    by (simp add: desugarQuery_def)
qed

section \<open>Properties of the attribute map and the parameter loop\<close>

lemma attrMap_fold_last:
  "foldl (\<lambda>acc row. acc(property_key (nth_opt row 0) \<mapsto> attrEntry row)) acc0 rows k =
     (case find (\<lambda>row. property_key (nth_opt row 0) = k) (rev rows) of
        None \<Rightarrow> acc0 k
      | Some row \<Rightarrow> Some (attrEntry row))"
  by (induction rows rule: rev_induct) simp_all

lemma attrMap_of_last:
  "attrMap_of rows k =
     map_option attrEntry (find (\<lambda>row. property_key (nth_opt row 0) = k) (rev rows))"
  by (simp add: attrMap_of_def attrMap_fold_last split: option.splits)

lemma paramTypes_loop_untouched:
  "(\<forall>i<length ps. property_key (nth_opt names (idx + i)) \<noteq> k) \<Longrightarrow>
   paramTypes_loop ps idx names tm acc k = acc k"
proof (induction ps arbitrary: idx acc)
  case Nil
  then show ?case by simp
next
  case (Cons p ps)
  let ?acc = "assign_property acc (property_key (nth_opt names idx))
                (get_property tm (number_toString (oid p)))"
  from Cons.prems have here: "property_key (nth_opt names idx) \<noteq> k"
    by (auto dest: spec[of _ 0])
  have later: "\<forall>i<length ps. property_key (nth_opt names (Suc idx + i)) \<noteq> k"
  proof (intro allI impI)
    fix i assume "i < length ps"
    with Cons.prems have "property_key (nth_opt names (idx + Suc i)) \<noteq> k" by auto
    then show "property_key (nth_opt names (Suc idx + i)) \<noteq> k" by simp
  qed
  have "paramTypes_loop ps (Suc idx) names tm ?acc k = ?acc k"
    by (rule Cons.IH[OF later])
  moreover have "?acc k = acc k"
    using here by (simp add: assign_property_def)
  ultimately show ?case by (simp add: Let_def)
qed

lemma paramTypes_loop_proto:
  "paramTypes_loop ps idx names tm acc ''__proto__'' = acc ''__proto__''"
proof (induction ps arbitrary: idx acc)
  case Nil
  then show ?case by simp
next
  case (Cons p ps)
  let ?acc = "assign_property acc (property_key (nth_opt names idx))
                (get_property tm (number_toString (oid p)))"
  have "paramTypes_loop ps (Suc idx) names tm ?acc ''__proto__'' = ?acc ''__proto__''"
    by (rule Cons.IH)
  moreover have "?acc ''__proto__'' = acc ''__proto__''"
    by (simp add: assign_property_def)
  ultimately show ?case by (simp add: Let_def)
qed

lemma paramTypes_loop_last_write:
  "i < length ps \<Longrightarrow> property_key (nth_opt names (idx + i)) = k \<Longrightarrow>
   (\<forall>j. i < j \<and> j < length ps \<longrightarrow> property_key (nth_opt names (idx + j)) \<noteq> k) \<Longrightarrow>
   k \<noteq> ''__proto__'' \<Longrightarrow>
   paramTypes_loop ps idx names tm acc k
     = Some (get_property tm (number_toString (oid (ps ! i))))"
proof (induction ps arbitrary: idx acc i)
  case Nil
  then show ?case by simp
next
  case (Cons p ps)
  let ?acc = "assign_property acc (property_key (nth_opt names idx))
                (get_property tm (number_toString (oid p)))"
  show ?case
  proof (cases i)
    case 0
    have "\<forall>j<length ps. property_key (nth_opt names (Suc idx + j)) \<noteq> k"
    proof (intro allI impI)
      fix j assume "j < length ps"
      with Cons.prems(3) 0 have "property_key (nth_opt names (idx + Suc j)) \<noteq> k" by auto
      then show "property_key (nth_opt names (Suc idx + j)) \<noteq> k" by simp
    qed
    then have "paramTypes_loop ps (Suc idx) names tm ?acc k = ?acc k"
      by (rule paramTypes_loop_untouched)
    moreover have "?acc k = Some (get_property tm (number_toString (oid p)))"
      using Cons.prems(2,4) 0 by (simp add: assign_property_def)
    ultimately show ?thesis using 0 by (simp add: Let_def)
  next
    case (Suc i')
    with Cons.prems have a: "i' < length ps" "property_key (nth_opt names (Suc idx + i')) = k"
      by simp_all
    have b: "\<forall>j. i' < j \<and> j < length ps \<longrightarrow> property_key (nth_opt names (Suc idx + j)) \<noteq> k"
    proof (intro allI impI)
      fix j assume "i' < j \<and> j < length ps"
      with Cons.prems(3) Suc have "property_key (nth_opt names (idx + Suc j)) \<noteq> k" by auto
      then show "property_key (nth_opt names (Suc idx + j)) \<noteq> k" by simp
    qed
    have "paramTypes_loop ps (Suc idx) names tm ?acc k
        = Some (get_property tm (number_toString (oid (ps ! i'))))"
      by (rule Cons.IH[OF a b Cons.prems(4)])
    then show ?thesis using Suc by (simp add: Let_def)
  qed
qed

lemma paramTypes_loop_dom:
  "dom (paramTypes_loop ps idx names tm acc) =
     dom acc \<union> ((\<lambda>i. property_key (nth_opt names (idx + i))) ` {..<length ps} - {''__proto__''})"
proof (induction ps arbitrary: idx acc)
  case Nil
  then show ?case by simp
next
  case (Cons p ps)
  let ?acc = "assign_property acc (property_key (nth_opt names idx))
                (get_property tm (number_toString (oid p)))"
  have "(\<lambda>i. property_key (nth_opt names (idx + i))) ` {..<Suc (length ps)} =
      insert (property_key (nth_opt names idx))
        ((\<lambda>i. property_key (nth_opt names (Suc idx + i))) ` {..<length ps})"
    by (simp add: lessThan_Suc_eq_insert_0 image_image)
  moreover have "dom (paramTypes_loop ps (Suc idx) names tm ?acc) =
      dom ?acc \<union> ((\<lambda>i. property_key (nth_opt names (Suc idx + i))) ` {..<length ps}
                     - {''__proto__''})"
    by (rule Cons.IH)
  moreover have "dom ?acc = dom acc \<union> ({property_key (nth_opt names idx)} - {''__proto__''})"
    by (auto simp: assign_property_def)
  ultimately show ?case
    unfolding paramTypes_loop.simps Let_def by auto
qed

lemma paramTypes_loop_cong:
  "(\<forall>i<length ps. nth_opt names (idx + i) = nth_opt names' (idx + i)) \<Longrightarrow>
   paramTypes_loop ps idx names tm acc = paramTypes_loop ps idx names' tm acc"
proof (induction ps arbitrary: idx acc)
  case Nil
  then show ?case by simp
next
  case (Cons p ps)
  from Cons.prems have here: "nth_opt names idx = nth_opt names' idx"
    by (auto dest: spec[of _ 0])
  have later: "\<forall>i<length ps. nth_opt names (Suc idx + i) = nth_opt names' (Suc idx + i)"
  proof (intro allI impI)
    fix i assume "i < length ps"
    with Cons.prems have "nth_opt names (idx + Suc i) = nth_opt names' (idx + Suc i)" by auto
    then show "nth_opt names (Suc idx + i) = nth_opt names' (Suc idx + i)" by simp
  qed
  have "paramTypes_loop ps (Suc idx) names tm
        (assign_property acc (property_key (nth_opt names idx))
           (get_property tm (number_toString (oid p)))) =
      paramTypes_loop ps (Suc idx) names' tm
        (assign_property acc (property_key (nth_opt names idx))
           (get_property tm (number_toString (oid p))))"
    by (rule Cons.IH[OF later])
  then show ?case
    unfolding paramTypes_loop.simps Let_def here .
qed

lemma paramTypes_loop_take:
  "paramTypes_loop ps 0 names tm acc = paramTypes_loop ps 0 (take (length ps) names) tm acc"
  by (rule paramTypes_loop_cong) (simp add: nth_opt_def)

lemma param_keys_within:
  "n \<le> length names \<Longrightarrow>
   (\<lambda>i. property_key (nth_opt names (0 + i))) ` {..<n} = set (take n names)"
proof -
  assume n: "n \<le> length names"
  have "(\<lambda>i. property_key (nth_opt names (0 + i))) ` {..<n} = (\<lambda>i. names ! i) ` {..<n}"
    using n by (intro image_cong) (auto simp: nth_opt_def)
  also have "\<dots> = set (take n names)"
    using n by (simp add: nth_image lessThan_atLeast0)
  finally show ?thesis .
qed

lemma param_keys_beyond:
  "length names < n \<Longrightarrow>
   (\<lambda>i. property_key (nth_opt names (0 + i))) ` {..<n} = set names \<union> {''undefined''}"
proof -
  assume n: "length names < n"
  let ?key = "\<lambda>i. property_key (nth_opt names (0 + i))"
  have "{..<n} = {..<length names} \<union> {length names..<n}" using n by auto
  then have "?key ` {..<n} = ?key ` {..<length names} \<union> ?key ` {length names..<n}"
    by (simp add: image_Un)
  moreover have "?key ` {..<length names} = set names"
    using param_keys_within[of "length names" names] by simp
  moreover have "?key ` {length names..<n} = {''undefined''}"
    using n by (auto simp: nth_opt_def image_iff intro!: bexI[of _ "length names"])
  ultimately show ?thesis by simp
qed

text \<open>
  What \<^verbatim>\<open>getTypes\<close> stores in \<^verbatim>\<open>paramTypes\<close>, for the names the assignment can
  store: the entry under a name is the type looked up for the last parameter
  index with that name, and the keys are the names of the indices of the
  reported parameters (the key \<^verbatim>\<open>undefined\<close> for an index past the recorded
  names), the name \<^verbatim>\<open>__proto__\<close> left out.
\<close>

lemma getTypes_paramTypes_last_write:
  assumes "getTypeData (desugaredQuery (desugarQuery query)) stmt q = (Inr (Inr typeData), q1)"
    and "runQuery (typeQuery (map oid (params typeData) @ map typeOID (fields' typeData))) q1
           = (Inr typeRows, q2)"
    and "runQuery (attributeQuery (attrSelection (fields' typeData))) q2 = (Inr attributeRows, q3)"
    and "i \<le> j" and "j < length (params typeData)"
    and "property_key (nth_opt (paramNames (desugarQuery query)) i)
           = property_key (nth_opt (paramNames (desugarQuery query)) j)"
    and "\<forall>l. j < l \<and> l < length (params typeData) \<longrightarrow>
           property_key (nth_opt (paramNames (desugarQuery query)) l)
             \<noteq> property_key (nth_opt (paramNames (desugarQuery query)) j)"
    and "property_key (nth_opt (paramNames (desugarQuery query)) j) \<noteq> ''__proto__''"
  shows "\<exists>r. getTypes query stmt q = (Inr (Inr r), q3)
     \<and> paramTypes r (property_key (nth_opt (paramNames (desugarQuery query)) i))
          = Some (get_property (typeMap_of typeRows)
                    (number_toString (oid (params typeData ! j))))"
proof -
  let ?names = "paramNames (desugarQuery query)"
  let ?r = "\<lparr>paramTypes = paramTypes_loop (params typeData) 0 ?names (typeMap_of typeRows) Map.empty,
             returnTypes = map (returnTypeOf (attrMap_of attributeRows) (typeMap_of typeRows))
                             (fields' typeData)\<rparr>"
  have r: "getTypes query stmt q = (Inr (Inr ?r), q3)"
    by (rule getTypes_resolved[OF assms(1-3)])
  have "paramTypes_loop (params typeData) 0 ?names (typeMap_of typeRows) Map.empty
          (property_key (nth_opt ?names j))
      = Some (get_property (typeMap_of typeRows) (number_toString (oid (params typeData ! j))))"
    using assms(5,7,8)
    by (intro paramTypes_loop_last_write) simp_all
  then have "paramTypes ?r (property_key (nth_opt ?names i))
      = Some (get_property (typeMap_of typeRows) (number_toString (oid (params typeData ! j))))"
    using assms(6) by simp
  with r show ?thesis by (intro exI conjI)
qed

lemma getTypes_paramTypes_keys:
  assumes "getTypeData (desugaredQuery (desugarQuery query)) stmt q = (Inr (Inr typeData), q1)"
    and "runQuery (typeQuery (map oid (params typeData) @ map typeOID (fields' typeData))) q1
           = (Inr typeRows, q2)"
    and "runQuery (attributeQuery (attrSelection (fields' typeData))) q2 = (Inr attributeRows, q3)"
  shows "\<exists>r. getTypes query stmt q = (Inr (Inr r), q3)
     \<and> paramTypes r =
         paramTypes_loop (params typeData) 0
           (take (length (params typeData)) (paramNames (desugarQuery query)))
           (typeMap_of typeRows) Map.empty
     \<and> paramTypes r ''__proto__'' = None
     \<and> (length (params typeData) \<le> length (paramNames (desugarQuery query)) \<longrightarrow>
          dom (paramTypes r) =
            set (take (length (params typeData)) (paramNames (desugarQuery query)))
              - {''__proto__''})
     \<and> (length (paramNames (desugarQuery query)) < length (params typeData) \<longrightarrow>
          dom (paramTypes r) =
            set (paramNames (desugarQuery query)) \<union> {''undefined''} - {''__proto__''}
        \<and> paramTypes r ''undefined'' =
            Some (get_property (typeMap_of typeRows)
                    (number_toString (oid (last (params typeData))))))"
proof -
  let ?names = "paramNames (desugarQuery query)"
  let ?ps = "params typeData"
  let ?pt = "paramTypes_loop ?ps 0 ?names (typeMap_of typeRows) Map.empty"
  let ?r = "\<lparr>paramTypes = ?pt,
             returnTypes = map (returnTypeOf (attrMap_of attributeRows) (typeMap_of typeRows))
                             (fields' typeData)\<rparr>"
  have r: "getTypes query stmt q = (Inr (Inr ?r), q3)"
    by (rule getTypes_resolved[OF assms])
  have t: "?pt = paramTypes_loop ?ps 0 (take (length ?ps) ?names) (typeMap_of typeRows) Map.empty"
    by (rule paramTypes_loop_take)
  have proto: "?pt ''__proto__'' = None"
    by (simp add: paramTypes_loop_proto)
  have d: "dom ?pt = (\<lambda>i. property_key (nth_opt ?names (0 + i))) ` {..<length ?ps} - {''__proto__''}"
    by (simp add: paramTypes_loop_dom)
  have within: "dom ?pt = set (take (length ?ps) ?names) - {''__proto__''}"
    if "length ?ps \<le> length ?names"
    using d param_keys_within[OF that] by simp
  have beyond: "dom ?pt = set ?names \<union> {''undefined''} - {''__proto__''}
      \<and> ?pt ''undefined'' = Some (get_property (typeMap_of typeRows)
                    (number_toString (oid (last ?ps))))"
    if b: "length ?names < length ?ps"
  proof -
    from b have ne: "?ps \<noteq> []" by auto
    then have l: "last ?ps = ?ps ! (length ?ps - 1)" by (rule last_conv_nth)
    from b have "\<not> (0 + (length ?ps - 1) < length ?names)" by linarith
    then have k: "property_key (nth_opt ?names (0 + (length ?ps - 1))) = ''undefined''"
      unfolding nth_opt_def by (simp only: if_False property_key.simps)
    have "?pt ''undefined'' = Some (get_property (typeMap_of typeRows)
                    (number_toString (oid (?ps ! (length ?ps - 1)))))"
      by (rule paramTypes_loop_last_write[OF _ k]) (use ne in auto)
    with d param_keys_beyond[OF b] l show ?thesis by simp
  qed
  have sel: "paramTypes ?r = ?pt" by simp
  show ?thesis
  proof (intro exI[of _ ?r] conjI impI)
    show "getTypes query stmt q = (Inr (Inr ?r), q3)" by (rule r)
    show "paramTypes ?r =
        paramTypes_loop ?ps 0 (take (length ?ps) ?names) (typeMap_of typeRows) Map.empty"
      unfolding sel by (rule t)
    show "paramTypes ?r ''__proto__'' = None"
      unfolding sel by (rule proto)
    show "dom (paramTypes ?r) = set (take (length ?ps) ?names) - {''__proto__''}"
      if "length ?ps \<le> length ?names"
      unfolding sel by (rule within[OF that])
    show "dom (paramTypes ?r) = set ?names \<union> {''undefined''} - {''__proto__''}"
      if "length ?names < length ?ps"
      unfolding sel using beyond[OF that] by (rule conjunct1)
    show "paramTypes ?r ''undefined'' = Some (get_property (typeMap_of typeRows)
                    (number_toString (oid (last ?ps))))" if "length ?names < length ?ps"
      unfolding sel using beyond[OF that] by (rule conjunct2)
  qed
qed

section \<open>The example exchanges, evaluated\<close>

lemma number_toString_examples:
  "number_toString 0 = ''0''" "number_toString 1 = ''1''" "number_toString 2 = ''2''"
  "number_toString 3 = ''3''" "number_toString 23 = ''23''" "number_toString 25 = ''25''"
  "number_toString 16384 = ''16384''"
  by (simp_all add: number_toString_def nat_toString.simps digit_char_def)

lemma example_exchange:
  "\<exists>q1 q2 q3.
      getTypeData (desugaredQuery (desugarQuery query)) stmt (example_resolving_queue ps)
        = (Inr (Inr \<lparr>fields' = example_fields, params = ps\<rparr>), q1)
    \<and> runQuery (typeQuery (map oid (params \<lparr>fields' = example_fields, params = ps\<rparr>)
                    @ map typeOID (fields' \<lparr>fields' = example_fields, params = ps\<rparr>))) q1
        = (Inr [[''23'', ''int4''], [''25'', ''text'']], q2)
    \<and> runQuery (attributeQuery (attrSelection (fields' \<lparr>fields' = example_fields, params = ps\<rparr>))) q2
        = (Inr [[''16384:2'', ''name'', ''t''], [''16384:3'', ''email'', ''f'']], q3)
    \<and> inbound q3 = []"
  using getTypes_exchange[of "example_resolving_queue ps" "ParameterDescription ps"
      "RowDescription example_fields" "[]" example_type_rows "''SELECT 2''" "[]"
      example_attribute_rows "''SELECT 2''" "[]"
      "desugaredQuery (desugarQuery query)" stmt
      "typeQuery (map oid (params \<lparr>fields' = example_fields, params = ps\<rparr>)
                    @ map typeOID (fields' \<lparr>fields' = example_fields, params = ps\<rparr>))"
      "attributeQuery (attrSelection (fields' \<lparr>fields' = example_fields, params = ps\<rparr>))"]
  by (simp add: example_resolving_queue_def example_type_rows_def example_attribute_rows_def)

lemma desugarQuery_examples:
  "desugarQuery ''selec :a'' = \<lparr>desugaredQuery = ''selec $1'', paramNames = [''a'']\<rparr>"
  "desugarQuery ''select 1 as one, name, email from users where id = :v or name = :v''
     = \<lparr>desugaredQuery = ''select 1 as one, name, email from users where id = $1 or name = $2'',
        paramNames = [''v'', ''v'']\<rparr>"
  "desugarQuery ''select :a, :b'' = \<lparr>desugaredQuery = ''select $1, $2'', paramNames = [''a'', ''b'']\<rparr>"
  "desugarQuery ''select $1, $2'' = \<lparr>desugaredQuery = ''select $1, $2'', paramNames = []\<rparr>"
  "desugarQuery ''delete from t where id = :__proto__''
     = \<lparr>desugaredQuery = ''delete from t where id = $1'', paramNames = [''__proto__'']\<rparr>"
  "desugarQuery ''delete from t where a = :__proto__ or b = :constructor''
     = \<lparr>desugaredQuery = ''delete from t where a = $1 or b = $2'',
        paramNames = [''__proto__'', ''constructor'']\<rparr>"
  by (simp_all add: desugarQuery_def is_word_char_def word_chars_def number_toString_examples)

lemma typeMap_example:
  "get_property (typeMap_of [[''23'', ''int4''], [''25'', ''text'']]) ''23'' = Some ''int4''"
  "get_property (typeMap_of [[''23'', ''int4''], [''25'', ''text'']]) ''25'' = Some ''text''"
  by (simp_all add: typeMap_of_def get_property_def nth_opt_def)

lemma example_insert_exchange:
  "\<exists>q1 q2 q3.
      getTypeData (desugaredQuery (desugarQuery query)) stmt (example_insert_queue ps)
        = (Inr (Inr \<lparr>fields' = [], params = ps\<rparr>), q1)
    \<and> runQuery (typeQuery (map oid (params \<lparr>fields' = [], params = ps\<rparr>)
                    @ map typeOID (fields' \<lparr>fields' = [], params = ps\<rparr>))) q1
        = (Inr [[''23'', ''int4'']], q2)
    \<and> runQuery (attributeQuery (attrSelection (fields' \<lparr>fields' = [], params = ps\<rparr>))) q2
        = (Inr [], q3)
    \<and> inbound q3 = []"
  using getTypes_exchange[of "example_insert_queue ps" "ParameterDescription ps"
      NoData "[]" "[[Column ''23'', Column ''int4'']]" "''SELECT 1''" "[]"
      "[]" "''SELECT 0''" "[]"
      "desugaredQuery (desugarQuery query)" stmt
      "typeQuery (map oid (params \<lparr>fields' = [], params = ps\<rparr>)
                    @ map typeOID (fields' \<lparr>fields' = [], params = ps\<rparr>))"
      "attributeQuery (attrSelection (fields' \<lparr>fields' = [], params = ps\<rparr>))"]
  by (simp add: example_insert_queue_def)

lemma example_attrMap:
  "attrKey (example_fields ! 0) = ''0:0''"
  "attrKey (example_fields ! 1) = ''16384:2''"
  "attrKey (example_fields ! 2) = ''16384:3''"
  by (simp_all add: attrKey_def example_fields_def expression_field_def number_toString_examples)

section \<open>The claims\<close>

text \<open>
  Claim C1, as the specification states it, fails on the source: there, clauses
  are built only for fields with a non-zero table reference, and the
  always-false case is taken whenever no field has one. For the single
  expression field, whose table reference is 0, \<^verbatim>\<open>getTypes\<close> builds the clause
  for table 0 and does not take the special case.
\<close>

theorem attrSelection_zero_reference_counterexample:
  "filter (\<lambda>f. tableOID f \<noteq> 0) [expression_field] = []
   \<and> attrSelection_by_reference [expression_field] = JsFalse
   \<and> attrSelection [expression_field] = Predicate ''(attrelid = 0 and attnum = 0)''
   \<and> attrSelection [expression_field] \<noteq> attrSelection_by_reference [expression_field]"
  by (simp add: attrSelection_def attrSelection_by_reference_def attrMatcher_def
      expression_field_def number_toString_examples)

text \<open>
  Claim C1, amended. When the probe has returned type data and the first
  catalog query has returned its rows, the second catalog query that
  \<^verbatim>\<open>getTypes\<close> sends has as predicate a disjunction of one clause
  \<^verbatim>\<open>(attrelid = tableOID and attnum = columnAttrNumber)\<close> for every field of the
  row description, in field order and joined by \<^verbatim>\<open> or \<close>, whether or not the
  field's table reference is zero. Only for an empty field list does
  \<^verbatim>\<open>getTypes\<close> take the special case: the predicate is the boolean \<^verbatim>\<open>false\<close>
  and the text sent ends in \<^verbatim>\<open>where false;\<close>. When that query returns its
  rows, \<^verbatim>\<open>getTypes\<close> returns the resolved types.
\<close>

theorem attrSelection_every_field:
  assumes "getTypeData (desugaredQuery (desugarQuery query)) stmt q = (Inr (Inr typeData), q1)"
    and "runQuery (typeQuery (map oid (params typeData) @ map typeOID (fields' typeData))) q1
           = (Inr typeRows, q2)"
  shows "query_texts (trace (snd (getTypes query stmt q))) =
           query_texts (trace q)
             @ [typeQuery (map oid (params typeData) @ map typeOID (fields' typeData)),
                attributeQuery
                  (if fields' typeData = [] then JsFalse
                   else Predicate (join '' or ''
                     (map (\<lambda>f. ''(attrelid = '' @ number_toString (tableOID f)
                                 @ '' and attnum = '' @ number_toString (columnAttrNumber f)
                                 @ '')'')
                          (fields' typeData))))]
       \<and> (fields' typeData = [] \<longrightarrow>
            query_texts (trace (snd (getTypes query stmt q))) =
              query_texts (trace q)
                @ [typeQuery (map oid (params typeData)),
                   ''select'' @ [CHR 0x0A]
                     @ ''      (attrelid || '' @ [CHR 0x27] @ '':'' @ [CHR 0x27]
                     @ '' || attnum) as attid, attname, attnotnull'' @ [CHR 0x0A]
                     @ ''     from pg_attribute where false;''])
       \<and> (\<forall>attributeRows q3.
             runQuery (attributeQuery
                  (if fields' typeData = [] then JsFalse
                   else Predicate (join '' or ''
                     (map (\<lambda>f. ''(attrelid = '' @ number_toString (tableOID f)
                                 @ '' and attnum = '' @ number_toString (columnAttrNumber f)
                                 @ '')'')
                          (fields' typeData))))) q2 = (Inr attributeRows, q3)
             \<longrightarrow> (\<exists>r. getTypes query stmt q = (Inr (Inr r), q3)))"
proof -
  let ?fs = "fields' typeData"
  let ?sel = "if ?fs = [] then JsFalse
              else Predicate (join '' or ''
                     (map (\<lambda>f. ''(attrelid = '' @ number_toString (tableOID f)
                                 @ '' and attnum = '' @ number_toString (columnAttrNumber f)
                                 @ '')'') ?fs))"
  let ?tq = "typeQuery (map oid (params typeData) @ map typeOID ?fs)"
  have m: "attrMatcher = (\<lambda>f. ''(attrelid = '' @ number_toString (tableOID f)
                               @ '' and attnum = '' @ number_toString (columnAttrNumber f) @ '')'')"
    by (rule ext) (simp add: attrMatcher_def)
  have sel: "attrSelection ?fs = ?sel"
    unfolding attrSelection_def m by simp
  obtain r3 q3 where r3: "runQuery (attributeQuery (attrSelection ?fs)) q2 = (r3, q3)"
    by force
  have "snd (getTypes query stmt q) = q3"
    using assms r3 by (cases r3) (simp_all add: getTypes_def Let_def)
  then have "query_texts (trace (snd (getTypes query stmt q))) =
      query_texts (trace q) @ [?tq, attributeQuery (attrSelection ?fs)]"
    using getTypeData_query_texts[OF assms(1)] runQuery_query_texts[OF assms(2)]
      runQuery_query_texts[OF r3] by simp
  then have texts: "query_texts (trace (snd (getTypes query stmt q))) =
      query_texts (trace q) @ [?tq, attributeQuery ?sel]"
    unfolding sel .
  have empty: "query_texts (trace (snd (getTypes query stmt q))) =
              query_texts (trace q)
                @ [typeQuery (map oid (params typeData)),
                   ''select'' @ [CHR 0x0A]
                     @ ''      (attrelid || '' @ [CHR 0x27] @ '':'' @ [CHR 0x27]
                     @ '' || attnum) as attid, attname, attnotnull'' @ [CHR 0x0A]
                     @ ''     from pg_attribute where false;'']"
    if "?fs = []"
    using texts that by (simp add: attributeQuery_def)
  have returns: "\<exists>r. getTypes query stmt q = (Inr (Inr r), q3')"
    if "runQuery (attributeQuery ?sel) q2 = (Inr attributeRows, q3')" for attributeRows q3'
  proof -
    from that have "runQuery (attributeQuery (attrSelection ?fs)) q2 = (Inr attributeRows, q3')"
      unfolding sel .
    from getTypes_resolved[OF assms this] show ?thesis by (intro exI)
  qed
  show ?thesis
  proof (intro conjI impI allI)
    show "query_texts (trace (snd (getTypes query stmt q))) =
        query_texts (trace q) @ [?tq, attributeQuery ?sel]"
      by (rule texts)
    show "query_texts (trace (snd (getTypes query stmt q))) =
              query_texts (trace q)
                @ [typeQuery (map oid (params typeData)),
                   ''select'' @ [CHR 0x0A]
                     @ ''      (attrelid || '' @ [CHR 0x27] @ '':'' @ [CHR 0x27]
                     @ '' || attnum) as attid, attname, attnotnull'' @ [CHR 0x0A]
                     @ ''     from pg_attribute where false;'']"
      if "?fs = []"
      by (rule empty[OF that])
    show "\<exists>r. getTypes query stmt q = (Inr (Inr r), q3')"
      if "runQuery (attributeQuery ?sel) q2 = (Inr attributeRows, q3')" for attributeRows q3'
      by (rule returns[OF that])
  qed
qed

theorem attrSelection_every_field_witness:
  "query_texts (trace (snd (getTypes ''select :a, :b'' ''q''
        (example_resolving_queue [\<lparr>oid = 23\<rparr>, \<lparr>oid = 25\<rparr>])))) =
     [''select oid, typname from pg_type where oid in (23,25,23,25,25)'',
      attributeQuery (Predicate
        ''(attrelid = 0 and attnum = 0) or (attrelid = 16384 and attnum = 2) or (attrelid = 16384 and attnum = 3)'')]
   \<and> (\<exists>r q'. getTypes ''select :a, :b'' ''q''
          (example_resolving_queue [\<lparr>oid = 23\<rparr>, \<lparr>oid = 25\<rparr>]) = (Inr (Inr r), q'))
   \<and> query_texts (trace (snd (getTypes ''select :a, :b'' ''q''
          (example_insert_queue [\<lparr>oid = 23\<rparr>])))) =
       [''select oid, typname from pg_type where oid in (23)'',
        ''select'' @ [CHR 0x0A]
          @ ''      (attrelid || '' @ [CHR 0x27] @ '':'' @ [CHR 0x27]
          @ '' || attnum) as attid, attname, attnotnull'' @ [CHR 0x0A]
          @ ''     from pg_attribute where false;'']"
proof -
  let ?query = "''select :a, :b''"
  have first: "query_texts (trace (snd (getTypes ?query ''q''
        (example_resolving_queue [\<lparr>oid = 23\<rparr>, \<lparr>oid = 25\<rparr>])))) =
     [''select oid, typname from pg_type where oid in (23,25,23,25,25)'',
      attributeQuery (Predicate
        ''(attrelid = 0 and attnum = 0) or (attrelid = 16384 and attnum = 2) or (attrelid = 16384 and attnum = 3)'')]
    \<and> (\<exists>r q'. getTypes ?query ''q''
          (example_resolving_queue [\<lparr>oid = 23\<rparr>, \<lparr>oid = 25\<rparr>]) = (Inr (Inr r), q'))"
  proof -
    let ?ps = "[\<lparr>oid = 23\<rparr>, \<lparr>oid = 25\<rparr>]"
    let ?td = "\<lparr>fields' = example_fields, params = ?ps\<rparr>"
    let ?pred = "''(attrelid = 0 and attnum = 0) or (attrelid = 16384 and attnum = 2) or (attrelid = 16384 and attnum = 3)''"
    have tq: "typeQuery (map oid (params ?td) @ map typeOID (fields' ?td)) =
        ''select oid, typname from pg_type where oid in (23,25,23,25,25)''"
      by (simp add: typeQuery_def example_fields_def expression_field_def number_toString_examples)
    have sel: "attrSelection (fields' ?td) = Predicate ?pred"
      by (simp add: attrSelection_def attrMatcher_def example_fields_def expression_field_def
          number_toString_examples)
    have sel': "(if fields' ?td = [] then JsFalse
          else Predicate (join '' or ''
             (map (\<lambda>f. ''(attrelid = '' @ number_toString (tableOID f)
                         @ '' and attnum = '' @ number_toString (columnAttrNumber f) @ '')'')
                  (fields' ?td)))) = Predicate ?pred"
      by (simp add: example_fields_def expression_field_def number_toString_examples)
    from example_exchange[of ?query "''q''" ?ps]
    obtain q1 q2 q3 where
      p1: "getTypeData (desugaredQuery (desugarQuery ?query)) ''q'' (example_resolving_queue ?ps)
             = (Inr (Inr ?td), q1)"
      and p2: "runQuery (typeQuery (map oid (params ?td) @ map typeOID (fields' ?td))) q1
          = (Inr [[''23'', ''int4''], [''25'', ''text'']], q2)"
      and p3: "runQuery (attributeQuery (attrSelection (fields' ?td))) q2
          = (Inr [[''16384:2'', ''name'', ''t''], [''16384:3'', ''email'', ''f'']], q3)"
      by (elim exE conjE)
    note inst = attrSelection_every_field[OF p1 p2]
    from inst have "query_texts (trace (snd (getTypes ?query ''q'' (example_resolving_queue ?ps)))) =
        query_texts (trace (example_resolving_queue ?ps))
          @ [typeQuery (map oid (params ?td) @ map typeOID (fields' ?td)),
             attributeQuery (Predicate ?pred)]"
      unfolding sel' by (rule conjunct1)
    then have t: "query_texts (trace (snd (getTypes ?query ''q'' (example_resolving_queue ?ps)))) =
        [''select oid, typname from pg_type where oid in (23,25,23,25,25)'',
         attributeQuery (Predicate ?pred)]"
      unfolding tq by (simp add: example_resolving_queue_def)
    from p3 have p3': "runQuery (attributeQuery (Predicate ?pred)) q2
          = (Inr [[''16384:2'', ''name'', ''t''], [''16384:3'', ''email'', ''f'']], q3)"
      unfolding sel .
    from inst have "\<forall>attributeRows q3.
        runQuery (attributeQuery (Predicate ?pred)) q2 = (Inr attributeRows, q3)
        \<longrightarrow> (\<exists>r. getTypes ?query ''q'' (example_resolving_queue ?ps) = (Inr (Inr r), q3))"
      unfolding sel' by (elim conjE)
    with p3' have "\<exists>r. getTypes ?query ''q'' (example_resolving_queue ?ps) = (Inr (Inr r), q3)"
      by (elim allE impE)
    then have "\<exists>r q'. getTypes ?query ''q'' (example_resolving_queue ?ps) = (Inr (Inr r), q')"
      by (elim exE) (intro exI)
    with t show ?thesis by (rule conjI)
  qed
  have second: "query_texts (trace (snd (getTypes ?query ''q''
          (example_insert_queue [\<lparr>oid = 23\<rparr>])))) =
       [''select oid, typname from pg_type where oid in (23)'',
        ''select'' @ [CHR 0x0A]
          @ ''      (attrelid || '' @ [CHR 0x27] @ '':'' @ [CHR 0x27]
          @ '' || attnum) as attid, attname, attnotnull'' @ [CHR 0x0A]
          @ ''     from pg_attribute where false;'']"
  proof -
    let ?ps = "[\<lparr>oid = 23\<rparr>]"
    let ?td = "\<lparr>fields' = [], params = ?ps\<rparr>"
    have tq: "typeQuery (map oid (params ?td)) =
        ''select oid, typname from pg_type where oid in (23)''"
      by (simp add: typeQuery_def number_toString_examples)
    from example_insert_exchange[of ?query "''q''" ?ps]
    obtain q1 q2 q3 where
      p1: "getTypeData (desugaredQuery (desugarQuery ?query)) ''q'' (example_insert_queue ?ps)
             = (Inr (Inr ?td), q1)"
      and p2: "runQuery (typeQuery (map oid (params ?td) @ map typeOID (fields' ?td))) q1
          = (Inr [[''23'', ''int4'']], q2)"
      by (elim exE conjE)
    have e: "fields' ?td = []" by simp
    from attrSelection_every_field[OF p1 p2]
    have "fields' ?td = [] \<longrightarrow>
        query_texts (trace (snd (getTypes ?query ''q'' (example_insert_queue ?ps)))) =
          query_texts (trace (example_insert_queue ?ps))
            @ [typeQuery (map oid (params ?td)),
               ''select'' @ [CHR 0x0A]
                 @ ''      (attrelid || '' @ [CHR 0x27] @ '':'' @ [CHR 0x27]
                 @ '' || attnum) as attid, attname, attnotnull'' @ [CHR 0x0A]
                 @ ''     from pg_attribute where false;'']"
      by (elim conjE)
    with e have "query_texts (trace (snd (getTypes ?query ''q'' (example_insert_queue ?ps)))) =
          query_texts (trace (example_insert_queue ?ps))
            @ [typeQuery (map oid (params ?td)),
               ''select'' @ [CHR 0x0A]
                 @ ''      (attrelid || '' @ [CHR 0x27] @ '':'' @ [CHR 0x27]
                 @ '' || attnum) as attid, attname, attnotnull'' @ [CHR 0x0A]
                 @ ''     from pg_attribute where false;'']"
      by (elim impE)
    then show ?thesis
      unfolding tq by (simp add: example_insert_queue_def)
  qed
  from first second show ?thesis by simp
qed

text \<open>
  Claim C2. When the first reply awaited by \<^verbatim>\<open>getTypeData\<close> is an error
  response, the returned \<^verbatim>\<open>ParseError\<close> is to carry the server's code, hint,
  message and position, and it is returned at once. In the error response of
  the wire protocol the tag \<^verbatim>\<open>C\<close> carries the code and the tag \<^verbatim>\<open>R\<close> the name
  of the routine that reported the error. The source reads \<^verbatim>\<open>errorFields.R\<close>
  for \<^verbatim>\<open>errorCode\<close>: for a response with code 42601 reported by the routine
  \<^verbatim>\<open>scanner_yyerror\<close>, \<^verbatim>\<open>errorCode\<close> is the routine name and not the code. The
  hint, the message and the position are those of the response, and the call
  returns after its first await, with nothing more consumed.
\<close>

theorem getTypeData_errorCode_is_routine:
  "\<exists>e. getTypeData ''selec 1'' ''q'' example_sqlstate_queue =
          (Inr (Inl e),
           \<lparr>inbound = [],
            trace = [Sent (Parse ''q'' ''selec 1'' []), Sent (Describe ''q'' Statement),
                     Sent (Close Statement ''q''), Sent Flush,
                     Awaited [errorResponse, parseComplete]]\<rparr>)
      \<and> errorCode e = Some ''scanner_yyerror''
      \<and> errorCode e \<noteq> Some ''42601''
      \<and> hint e = None
      \<and> message e = Some ''syntax error''
      \<and> position e = Some ''1''"
proof -
  let ?ef = "[''S'' \<mapsto> ''ERROR'', ''C'' \<mapsto> ''42601'', ''M'' \<mapsto> ''syntax error'',
              ''P'' \<mapsto> ''1'', ''R'' \<mapsto> ''scanner_yyerror'']"
  let ?e = "\<lparr>errorCode = ?ef ''R'', hint = ?ef ''H'', message = ?ef ''M'', position = ?ef ''P''\<rparr>"
  have i: "inbound example_sqlstate_queue = ErrorResponse ?ef # []"
    by (simp add: example_sqlstate_queue_def)
  have "getTypeData ''selec 1'' ''q'' example_sqlstate_queue =
          (Inr (Inl ?e),
           \<lparr>inbound = [],
            trace = [Sent (Parse ''q'' ''selec 1'' []), Sent (Describe ''q'' Statement),
                     Sent (Close Statement ''q''), Sent Flush,
                     Awaited [errorResponse, parseComplete]]\<rparr>)"
    using getTypeData_error_response[OF i, of "''selec 1''" "''q''"]
    by (simp add: example_sqlstate_queue_def)
  moreover have "errorCode ?e = Some ''scanner_yyerror''" "errorCode ?e \<noteq> Some ''42601''"
    "hint ?e = None" "message ?e = Some ''syntax error''" "position ?e = Some ''1''"
    by simp_all
  ultimately show ?thesis by (intro exI[of _ ?e] conjI)
qed

text \<open>
  Claim C3. For every query text and statement name, and whatever the server
  sends, \<^verbatim>\<open>getTypeData\<close> hands the sequencer exactly the four messages Parse,
  Describe (statement), Close (statement) and Flush, in that order, before its
  first await. The awaits that follow are, in order, error-response or
  parse-complete, parameter-description or no-data, row-description or
  no-data, and close-complete: all four when the probe returns type data, and
  the first one or more of them when a reply ends the probe early. No Bind or
  Execute message is sent: any such message on the trace after the call was
  there before it.
\<close>

theorem getTypeData_message_order:
  "\<exists>n. 1 \<le> n \<and> n \<le> 4
     \<and> trace (snd (getTypeData query stmt q)) =
         trace q @ [Sent (Parse stmt query []), Sent (Describe stmt Statement),
                    Sent (Close Statement stmt), Sent Flush]
           @ take n [Awaited [errorResponse, parseComplete],
                     Awaited [parameterDescription, noData],
                     Awaited [rowDescription, noData],
                     Awaited [closeComplete]]
     \<and> ((\<exists>td. fst (getTypeData query stmt q) = Inr (Inr td)) \<longrightarrow> n = 4)
     \<and> sent_messages (trace (snd (getTypeData query stmt q))) =
         sent_messages (trace q) @ [Parse stmt query [], Describe stmt Statement,
                                    Close Statement stmt, Flush]
     \<and> (\<forall>portal s. Bind portal s \<in> set (sent_messages (trace (snd (getTypeData query stmt q))))
            \<longrightarrow> Bind portal s \<in> set (sent_messages (trace q)))
     \<and> (\<forall>portal. Execute portal \<in> set (sent_messages (trace (snd (getTypeData query stmt q))))
            \<longrightarrow> Execute portal \<in> set (sent_messages (trace q)))"
proof -
  let ?t = "trace (snd (getTypeData query stmt q))"
  let ?base = "trace q @ [Sent (Parse stmt query []), Sent (Describe stmt Statement),
                    Sent (Close Statement stmt), Sent Flush]"
  let ?aw = "[Awaited [errorResponse, parseComplete],
                     Awaited [parameterDescription, noData],
                     Awaited [rowDescription, noData],
                     Awaited [closeComplete]]"
  let ?ok = "\<exists>td. fst (getTypeData query stmt q) = Inr (Inr td)"
  from getTypeData_trace_cases[of query stmt q]
  consider (one) "?t = ?base @ take 1 ?aw" "\<not> ?ok"
    | (two) "?t = ?base @ take 2 ?aw" "\<not> ?ok"
    | (three) "?t = ?base @ take 3 ?aw" "\<not> ?ok"
    | (four) "?t = ?base @ take 4 ?aw"
    by (auto simp: numeral_2_eq_2 numeral_3_eq_3)
  then obtain n where n: "1 \<le> n" "n \<le> 4" "?t = ?base @ take n ?aw" "?ok \<longrightarrow> n = 4"
  proof cases
    case one
    with that[of 1] show ?thesis by simp
  next
    case two
    with that[of 2] show ?thesis by simp
  next
    case three
    with that[of 3] show ?thesis by simp
  next
    case four
    with that[of 4] show ?thesis by simp
  qed
  have "sent_messages (take n ?aw) = []"
    by (cases n; simp; rename_tac k; case_tac k; simp; rename_tac j; case_tac j; simp;
        rename_tac i; case_tac i; simp)
  with n(3) have sent: "sent_messages ?t = sent_messages (trace q) @
      [Parse stmt query [], Describe stmt Statement, Close Statement stmt, Flush]"
    by simp
  from n sent show ?thesis by (intro exI[of _ n]) auto
qed

theorem getTypeData_message_order_witness:
  "fst (getTypeData ''select $1'' ''q'' example_described_queue)
      = Inr (Inr \<lparr>fields' = [], params = [\<lparr>oid = 23\<rparr>]\<rparr>)
   \<and> trace (snd (getTypeData ''select $1'' ''q'' example_described_queue)) =
       [Sent (Parse ''q'' ''select $1'' []), Sent (Describe ''q'' Statement),
        Sent (Close Statement ''q''), Sent Flush,
        Awaited [errorResponse, parseComplete], Awaited [parameterDescription, noData],
        Awaited [rowDescription, noData], Awaited [closeComplete]]
   \<and> Bind [] ''q'' \<notin> set (sent_messages (trace (snd (getTypeData ''select $1'' ''q'' example_described_queue))))
   \<and> Execute [] \<notin> set (sent_messages (trace (snd (getTypeData ''select $1'' ''q'' example_described_queue))))"
proof -
  have ok: "fst (getTypeData ''select $1'' ''q'' example_described_queue)
      = Inr (Inr \<lparr>fields' = [], params = [\<lparr>oid = 23\<rparr>]\<rparr>)"
    using getTypeData_described[of example_described_queue "ParameterDescription [\<lparr>oid = 23\<rparr>]"
        NoData "[]" "''select $1''" "''q''"]
    by (simp add: example_described_queue_def)
  from getTypeData_message_order[of "''select $1''" "''q''" example_described_queue] ok
  show ?thesis
    by (auto simp: example_described_queue_def)
qed

text \<open>
  Claim C4. If the probe inside \<^verbatim>\<open>getTypes\<close> yields a \<^verbatim>\<open>ParseError\<close>,
  \<^verbatim>\<open>getTypes\<close> returns that same \<^verbatim>\<open>ParseError\<close> and leaves the queue as the
  probe left it: no simple query has been sent (the query texts on the trace
  are those from before the call, and the messages sent are the four of the
  probe), and the result carries no type data.
\<close>

theorem getTypes_propagates_ParseError:
  assumes "getTypeData (desugaredQuery (desugarQuery query)) stmt q = (Inr (Inl parseError), q1)"
  shows "getTypes query stmt q = (Inr (Inl parseError), q1)
       \<and> query_texts (trace q1) = query_texts (trace q)
       \<and> sent_messages (trace q1) =
           sent_messages (trace q) @ [Parse stmt (desugaredQuery (desugarQuery query)) [],
              Describe stmt Statement, Close Statement stmt, Flush]"
proof -
  from getTypeData_trace_cases[of "desugaredQuery (desugarQuery query)" stmt q] assms
  have "sent_messages (trace q1) =
           sent_messages (trace q) @ [Parse stmt (desugaredQuery (desugarQuery query)) [],
              Describe stmt Statement, Close Statement stmt, Flush]"
    by auto
  with getTypes_parse_error[OF assms] getTypeData_query_texts[OF assms] show ?thesis by simp
qed

theorem getTypes_propagates_ParseError_witness:
  "getTypes ''selec :a'' ''q'' example_rejecting_queue =
     (Inr (Inl \<lparr>errorCode = Some ''scanner_yyerror'', hint = None,
                message = Some ''syntax error'', position = Some ''8''\<rparr>),
      \<lparr>inbound = [],
       trace = [Sent (Parse ''q'' ''selec $1'' []), Sent (Describe ''q'' Statement),
                Sent (Close Statement ''q''), Sent Flush,
                Awaited [errorResponse, parseComplete]]\<rparr>)
   \<and> query_texts (trace (snd (getTypes ''selec :a'' ''q'' example_rejecting_queue))) = []"
proof -
  have probe: "getTypeData (desugaredQuery (desugarQuery ''selec :a'')) ''q'' example_rejecting_queue =
     (Inr (Inl \<lparr>errorCode = Some ''scanner_yyerror'', hint = None,
                message = Some ''syntax error'', position = Some ''8''\<rparr>),
      \<lparr>inbound = [],
       trace = [Sent (Parse ''q'' ''selec $1'' []), Sent (Describe ''q'' Statement),
                Sent (Close Statement ''q''), Sent Flush,
                Awaited [errorResponse, parseComplete]]\<rparr>)"
    using getTypeData_error_response[of example_rejecting_queue
      "[''R'' \<mapsto> ''scanner_yyerror'', ''M'' \<mapsto> ''syntax error'', ''P'' \<mapsto> ''8'']" "[]"
      "''selec $1''" "''q''"]
    by (simp add: example_rejecting_queue_def desugarQuery_examples)
  from getTypes_propagates_ParseError[OF probe] show ?thesis
    by (simp add: example_rejecting_queue_def)
qed

text \<open>
  Claim C5. \<^verbatim>\<open>desugarQuery\<close> replaces, from left to right, every colon together
  with the longest run of word characters after it by \<^verbatim>\<open>$k\<close>, k the 1-based
  index of the occurrence, and records the names in order, duplicates and
  empty names included. The text \<^verbatim>\<open>:a, :b, :a\<close> gives \<^verbatim>\<open>$1, $2, $3\<close> with the
  names a, b, a. In general a plain part followed by segments is rewritten to
  the plain part followed by the segments with \<^verbatim>\<open>$1\<close>, \<^verbatim>\<open>$2\<close>, ... in place of
  the placeholders, and the names are those of the segments in order; every
  text is of that form; and the number of dollar signs added to the text
  equals the number of recorded names, which is the number of colons in the
  text.
\<close>

theorem desugarQuery_positional_markers:
  "desugarQuery '':a, :b, :a'' =
      \<lparr>desugaredQuery = ''$1, $2, $3'', paramNames = [''a'', ''b'', ''a'']\<rparr>
   \<and> (plain_text s0 \<and> list_all segment segs \<longrightarrow>
        desugarQuery (s0 @ placeholder_text segs) =
          \<lparr>desugaredQuery = s0 @ positional_text 1 segs, paramNames = map fst segs\<rparr>)
   \<and> (\<exists>s0' segs'. query = s0' @ placeholder_text segs' \<and> plain_text s0' \<and> list_all segment segs')
   \<and> count_list (desugaredQuery (desugarQuery query)) CHR ''$''
        = count_list query CHR ''$'' + length (paramNames (desugarQuery query))
   \<and> length (paramNames (desugarQuery query)) = count_list query CHR '':''"
proof -
  have "desugarQuery '':a, :b, :a'' =
      \<lparr>desugaredQuery = ''$1, $2, $3'', paramNames = [''a'', ''b'', ''a'']\<rparr>"
    by (simp add: desugarQuery_def is_word_char_def word_chars_def number_toString_examples)
  with desugarQuery_segments[of s0 segs] segments_exist[of query] desugarQuery_counts[of query]
  show ?thesis by blast
qed

theorem desugarQuery_positional_markers_witness:
  "plain_text ''select '' \<and> list_all segment [(''a'', '', ''), ([], '' from t where x = ''), (''a'', [])]
   \<and> desugarQuery ''select :a, : from t where x = :a'' =
        \<lparr>desugaredQuery = ''select $1, $2 from t where x = $3'', paramNames = [''a'', [], ''a'']\<rparr>"
proof -
  have h: "plain_text ''select '' \<and> list_all segment [(''a'', '', ''), ([], '' from t where x = ''), (''a'', [])]"
    by (simp add: is_word_char_def word_chars_def)
  from desugarQuery_positional_markers[of "''select ''"
      "[(''a'', '', ''), ([], '' from t where x = ''), (''a'', [])]" "[]"] h
  have "desugarQuery (''select '' @ placeholder_text [(''a'', '', ''), ([], '' from t where x = ''), (''a'', [])]) =
        \<lparr>desugaredQuery = ''select '' @ positional_text 1 [(''a'', '', ''), ([], '' from t where x = ''), (''a'', [])],
         paramNames = map fst [(''a'', '', ''), ([], '' from t where x = ''), (''a'', [])]\<rparr>"
    by blast
  then have "desugarQuery ''select :a, : from t where x = :a'' =
        \<lparr>desugaredQuery = ''select $1, $2 from t where x = $3'', paramNames = [''a'', [], ''a'']\<rparr>"
    by (simp add: number_toString_examples)
  with h show ?thesis by simp
qed

text \<open>
  Claim C6. \<^verbatim>\<open>paramTypes\<close> is to map, for each parameter index, the name
  recorded at that index to the type name looked up for the parameter's OID,
  the later index winning where a name repeats. The source does so for every
  name its assignment can store (\<open>getTypes_paramTypes_last_write\<close>), but it
  assigns onto a plain object: for the placeholder \<^verbatim>\<open>:__proto__\<close>, a name the
  desugarer records like any other, the assignment stores nothing. With one
  reported parameter of type \<^verbatim>\<open>int4\<close> the recorded name has no entry and
  \<^verbatim>\<open>paramTypes\<close> is empty.
\<close>

theorem paramTypes_drops_proto_name:
  "paramNames (desugarQuery ''delete from t where id = :__proto__'') = [''__proto__'']
   \<and> (\<exists>r q'. getTypes ''delete from t where id = :__proto__'' ''q'' (example_insert_queue [\<lparr>oid = 23\<rparr>])
                 = (Inr (Inr r), q')
          \<and> paramTypes r ''__proto__'' = None
          \<and> dom (paramTypes r) = {})"
proof -
  let ?query = "''delete from t where id = :__proto__''" and ?ps = "[\<lparr>oid = 23\<rparr>]"
  let ?td = "\<lparr>fields' = [], params = ?ps\<rparr>"
  have names: "paramNames (desugarQuery ?query) = [''__proto__'']"
    by (simp add: desugarQuery_examples)
  from example_insert_exchange[of ?query "''q''" ?ps] obtain q1 q2 q3 where
    p: "getTypeData (desugaredQuery (desugarQuery ?query)) ''q'' (example_insert_queue ?ps)
          = (Inr (Inr ?td), q1)"
       "runQuery (typeQuery (map oid (params ?td) @ map typeOID (fields' ?td))) q1
          = (Inr [[''23'', ''int4'']], q2)"
       "runQuery (attributeQuery (attrSelection (fields' ?td))) q2 = (Inr [], q3)"
    by (elim exE conjE)
  let ?r = "\<lparr>paramTypes = paramTypes_loop (params ?td) 0 (paramNames (desugarQuery ?query))
                            (typeMap_of [[''23'', ''int4'']]) Map.empty,
             returnTypes = map (returnTypeOf (attrMap_of []) (typeMap_of [[''23'', ''int4'']]))
                             (fields' ?td)\<rparr>"
  have r: "getTypes ?query ''q'' (example_insert_queue ?ps) = (Inr (Inr ?r), q3)"
    by (rule getTypes_resolved[OF p])
  have pt: "paramTypes ?r = Map.empty"
    by (simp add: names nth_opt_def assign_property_def)
  then have "paramTypes ?r ''__proto__'' = None" "dom (paramTypes ?r) = {}"
    by simp_all
  with r have "\<exists>r q'. getTypes ?query ''q'' (example_insert_queue ?ps) = (Inr (Inr r), q')
          \<and> paramTypes r ''__proto__'' = None \<and> dom (paramTypes r) = {}"
    by (intro exI[of _ ?r] exI[of _ q3] conjI)
  with names show ?thesis by (rule conjI)
qed

text \<open>
  Claim C7. The entry of the attribute map under a key is built from the last
  attribute row with that key, and its nullable flag is true exactly when the
  row's third column is not the text \<^verbatim>\<open>t\<close>. So in a resolution that runs both
  catalog queries, the \<^verbatim>\<open>nullable\<close> property of a return type is absent when no
  attribute row has the field's key and otherwise present with that value: it
  always comes from a catalog row, never from a default.
\<close>

theorem nullable_from_attnotnull:
  assumes "getTypeData (desugaredQuery (desugarQuery query)) stmt q = (Inr (Inr typeData), q1)"
    and "runQuery (typeQuery (map oid (params typeData) @ map typeOID (fields' typeData))) q1
           = (Inr typeRows, q2)"
    and "runQuery (attributeQuery (attrSelection (fields' typeData))) q2 = (Inr attributeRows, q3)"
  shows "(\<forall>k. attrMap_of attributeRows k =
            (case find (\<lambda>row. property_key (nth_opt row 0) = k) (rev attributeRows) of
               None \<Rightarrow> None
             | Some row \<Rightarrow> Some (AttrInfo (nth_opt row 1) (nth_opt row 2 \<noteq> Some ''t''))))
     \<and> (\<exists>r. getTypes query stmt q = (Inr (Inr r), q3)
          \<and> length (returnTypes r) = length (fields' typeData)
          \<and> (\<forall>i<length (fields' typeData).
                nullable (returnTypes r ! i) =
                  (case find (\<lambda>row. property_key (nth_opt row 0) = attrKey (fields' typeData ! i))
                          (rev attributeRows) of
                     None \<Rightarrow> Absent
                   | Some row \<Rightarrow> Present (nth_opt row 2 \<noteq> Some ''t''))))"
proof -
  let ?r = "\<lparr>paramTypes = paramTypes_loop (params typeData) 0 (paramNames (desugarQuery query))
                            (typeMap_of typeRows) Map.empty,
             returnTypes = map (returnTypeOf (attrMap_of attributeRows) (typeMap_of typeRows))
                             (fields' typeData)\<rparr>"
  have r: "getTypes query stmt q = (Inr (Inr ?r), q3)"
    by (rule getTypes_resolved[OF assms])
  have m: "attrMap_of attributeRows k =
            (case find (\<lambda>row. property_key (nth_opt row 0) = k) (rev attributeRows) of
               None \<Rightarrow> None
             | Some row \<Rightarrow> Some (AttrInfo (nth_opt row 1) (nth_opt row 2 \<noteq> Some ''t'')))" for k
    by (simp add: attrMap_of_last attrEntry_def split: option.splits)
  have n: "nullable (returnTypes ?r ! i) =
      (case find (\<lambda>row. property_key (nth_opt row 0) = attrKey (fields' typeData ! i))
              (rev attributeRows) of
         None \<Rightarrow> Absent
       | Some row \<Rightarrow> Present (nth_opt row 2 \<noteq> Some ''t''))"
    if "i < length (fields' typeData)" for i
    using that by (simp add: returnTypeOf_def m split: option.splits)
  have "length (returnTypes ?r) = length (fields' typeData)" by simp
  with r m n show ?thesis by blast
qed

theorem nullable_from_attnotnull_witness:
  "\<exists>r q'. getTypes ''select :a, :b'' ''q'' (example_resolving_queue [\<lparr>oid = 23\<rparr>, \<lparr>oid = 25\<rparr>])
            = (Inr (Inr r), q')
     \<and> map nullable (returnTypes r) = [Absent, Present False, Present True]"
proof -
  let ?query = "''select :a, :b''"
  let ?ps = "[\<lparr>oid = 23\<rparr>, \<lparr>oid = 25\<rparr>]"
  let ?rows = "[[''16384:2'', ''name'', ''t''], [''16384:3'', ''email'', ''f'']]"
  from example_exchange[of ?query "''q''" ?ps] obtain q1 q2 q3 where
    p: "getTypeData (desugaredQuery (desugarQuery ?query)) ''q'' (example_resolving_queue ?ps)
          = (Inr (Inr \<lparr>fields' = example_fields, params = ?ps\<rparr>), q1)"
       "runQuery (typeQuery (map oid (params \<lparr>fields' = example_fields, params = ?ps\<rparr>)
                    @ map typeOID (fields' \<lparr>fields' = example_fields, params = ?ps\<rparr>))) q1
          = (Inr [[''23'', ''int4''], [''25'', ''text'']], q2)"
       "runQuery (attributeQuery (attrSelection (fields' \<lparr>fields' = example_fields, params = ?ps\<rparr>))) q2
          = (Inr ?rows, q3)"
    by blast
  from nullable_from_attnotnull[OF p] obtain r where
    r: "getTypes ?query ''q'' (example_resolving_queue ?ps) = (Inr (Inr r), q3)"
    and len: "length (returnTypes r) = length (fields' \<lparr>fields' = example_fields, params = ?ps\<rparr>)"
    and n: "\<forall>i<length (fields' \<lparr>fields' = example_fields, params = ?ps\<rparr>).
                nullable (returnTypes r ! i) =
                  (case find (\<lambda>row. property_key (nth_opt row 0)
                                 = attrKey (fields' \<lparr>fields' = example_fields, params = ?ps\<rparr> ! i))
                          (rev ?rows) of
                     None \<Rightarrow> Absent
                   | Some row \<Rightarrow> Present (nth_opt row 2 \<noteq> Some ''t''))"
    by blast
  have l3: "length (returnTypes r) = 3" using len by (simp add: example_fields_def)
  have "nullable (returnTypes r ! 0) = Absent"
    using n[rule_format, of 0]
    by (simp add: example_fields_def expression_field_def attrKey_def number_toString_examples
        nth_opt_def)
  moreover have "nullable (returnTypes r ! 1) = Present False"
    using n[rule_format, of 1]
    by (simp add: example_fields_def expression_field_def attrKey_def number_toString_examples
        nth_opt_def)
  moreover have "nullable (returnTypes r ! 2) = Present True"
    using n[rule_format, of 2]
    by (simp add: example_fields_def expression_field_def attrKey_def number_toString_examples
        nth_opt_def)
  moreover from l3 obtain a b c where "returnTypes r = [a, b, c]"
    by (auto simp: length_Suc_conv numeral_3_eq_3)
  ultimately have "map nullable (returnTypes r) = [Absent, Present False, Present True]"
    by simp
  with r show ?thesis by (intro exI conjI)
qed

text \<open>
  Claim C8. In a resolution that runs both catalog queries, a field whose key
  \<^verbatim>\<open>tableOID:columnAttrNumber\<close> has no entry in the attribute map still gets
  its element of \<^verbatim>\<open>returnTypes\<close>, at the field's position: \<^verbatim>\<open>returnName\<close> is
  the field's name, \<^verbatim>\<open>typeName\<close> the looked-up type name, and \<^verbatim>\<open>columnName\<close>
  and \<^verbatim>\<open>nullable\<close> are absent; \<^verbatim>\<open>getTypes\<close> returns the resolved types.
\<close>

theorem returnTypes_without_attribute:
  assumes "getTypeData (desugaredQuery (desugarQuery query)) stmt q = (Inr (Inr typeData), q1)"
    and "runQuery (typeQuery (map oid (params typeData) @ map typeOID (fields' typeData))) q1
           = (Inr typeRows, q2)"
    and "runQuery (attributeQuery (attrSelection (fields' typeData))) q2 = (Inr attributeRows, q3)"
    and "i < length (fields' typeData)"
    and "attrMap_of attributeRows (attrKey (fields' typeData ! i)) = None"
  shows "\<exists>r. getTypes query stmt q = (Inr (Inr r), q3)
     \<and> length (returnTypes r) = length (fields' typeData)
     \<and> returnTypes r ! i =
         \<lparr>columnName = Absent, nullable = Absent, returnName = name (fields' typeData ! i),
          typeName = get_property (typeMap_of typeRows)
                       (number_toString (typeOID (fields' typeData ! i)))\<rparr>"
proof -
  let ?r = "\<lparr>paramTypes = paramTypes_loop (params typeData) 0 (paramNames (desugarQuery query))
                            (typeMap_of typeRows) Map.empty,
             returnTypes = map (returnTypeOf (attrMap_of attributeRows) (typeMap_of typeRows))
                             (fields' typeData)\<rparr>"
  have r: "getTypes query stmt q = (Inr (Inr ?r), q3)"
    by (rule getTypes_resolved[OF assms(1-3)])
  have "returnTypes ?r ! i =
         \<lparr>columnName = Absent, nullable = Absent, returnName = name (fields' typeData ! i),
          typeName = get_property (typeMap_of typeRows)
                       (number_toString (typeOID (fields' typeData ! i)))\<rparr>"
    using assms(4,5) by (simp add: returnTypeOf_def)
  moreover have "length (returnTypes ?r) = length (fields' typeData)" by simp
  ultimately show ?thesis using r by blast
qed

theorem returnTypes_without_attribute_witness:
  "attrMap_of [[''16384:2'', ''name'', ''t''], [''16384:3'', ''email'', ''f'']]
       (attrKey (example_fields ! 0)) = None
   \<and> (\<exists>r q'. getTypes ''select :a, :b'' ''q'' (example_resolving_queue [\<lparr>oid = 23\<rparr>, \<lparr>oid = 25\<rparr>])
            = (Inr (Inr r), q')
        \<and> returnTypes r ! 0 =
            \<lparr>columnName = Absent, nullable = Absent, returnName = ''one'', typeName = Some ''int4''\<rparr>)"
proof -
  let ?query = "''select :a, :b''"
  let ?ps = "[\<lparr>oid = 23\<rparr>, \<lparr>oid = 25\<rparr>]"
  let ?rows = "[[''16384:2'', ''name'', ''t''], [''16384:3'', ''email'', ''f'']]"
  let ?td = "\<lparr>fields' = example_fields, params = ?ps\<rparr>"
  from example_exchange[of ?query "''q''" ?ps] obtain q1 q2 q3 where
    p: "getTypeData (desugaredQuery (desugarQuery ?query)) ''q'' (example_resolving_queue ?ps)
          = (Inr (Inr ?td), q1)"
       "runQuery (typeQuery (map oid (params ?td) @ map typeOID (fields' ?td))) q1
          = (Inr [[''23'', ''int4''], [''25'', ''text'']], q2)"
       "runQuery (attributeQuery (attrSelection (fields' ?td))) q2 = (Inr ?rows, q3)"
    by blast
  have i: "0 < length (fields' ?td)" by (simp add: example_fields_def)
  have none: "attrMap_of ?rows (attrKey (example_fields ! 0)) = None"
    by (simp add: attrMap_of_def example_attrMap nth_opt_def)
  then have none': "attrMap_of ?rows (attrKey (fields' ?td ! 0)) = None" by simp
  from returnTypes_without_attribute[OF p i none'] obtain r where
    r: "getTypes ?query ''q'' (example_resolving_queue ?ps) = (Inr (Inr r), q3)"
    and e: "returnTypes r ! 0 =
         \<lparr>columnName = Absent, nullable = Absent, returnName = name (fields' ?td ! 0),
          typeName = get_property (typeMap_of [[''23'', ''int4''], [''25'', ''text'']])
                       (number_toString (typeOID (fields' ?td ! 0)))\<rparr>"
    by blast
  have "name (fields' ?td ! 0) = ''one''" "typeOID (fields' ?td ! 0) = 23"
    by (simp_all add: example_fields_def expression_field_def)
  with e have "returnTypes r ! 0 =
      \<lparr>columnName = Absent, nullable = Absent, returnName = ''one'', typeName = Some ''int4''\<rparr>"
    by (simp add: number_toString_examples typeMap_example)
  with r none show ?thesis by blast
qed

text \<open>
  Claim C9. \<^verbatim>\<open>runQuery\<close> returns the rows it received as an ordered sequence,
  each row the ordered sequence of its columns' texts: when the server answers
  with a row description, any number of data rows and command-complete, the
  result is those rows in order; with no data row the result is the empty
  sequence, not an error; and whenever \<^verbatim>\<open>runQuery\<close> returns, what it returns is
  exactly the data rows that arrived between the row description and
  command-complete.
\<close>

theorem runQuery_returns_received_rows:
  "(inbound q = RowDescription fs # map DataRow rows @ CommandComplete tag # rest \<longrightarrow>
      runQuery query q =
        (Inr (map (map value_of) rows),
         \<lparr>inbound = rest,
          trace = trace q @ [Sent (Query query), Awaited [rowDescription]]
                    @ replicate (Suc (length rows)) (Awaited [dataRow, commandComplete])\<rparr>))
   \<and> (inbound q = RowDescription fs # CommandComplete tag # rest \<longrightarrow>
        fst (runQuery query q) = Inr [])
   \<and> (runQuery query q = (Inr resultRows, q') \<longrightarrow>
        (\<exists>fs' rows' tag'.
            inbound q = RowDescription fs' # map DataRow rows' @ CommandComplete tag' # inbound q'
          \<and> resultRows = map (map value_of) rows'))"
proof (intro conjI impI)
  assume "inbound q = RowDescription fs # map DataRow rows @ CommandComplete tag # rest"
  then show "runQuery query q =
        (Inr (map (map value_of) rows),
         \<lparr>inbound = rest,
          trace = trace q @ [Sent (Query query), Awaited [rowDescription]]
                    @ replicate (Suc (length rows)) (Awaited [dataRow, commandComplete])\<rparr>)"
    by (rule runQuery_rows)
next
  assume "inbound q = RowDescription fs # CommandComplete tag # rest"
  then have "inbound q = RowDescription fs # map DataRow [] @ CommandComplete tag # rest"
    by simp
  from runQuery_rows[OF this] show "fst (runQuery query q) = Inr []" by simp
next
  assume "runQuery query q = (Inr resultRows, q')"
  then show "\<exists>fs' rows' tag'.
            inbound q = RowDescription fs' # map DataRow rows' @ CommandComplete tag' # inbound q'
          \<and> resultRows = map (map value_of) rows'"
    by (rule runQuery_Inr)
qed

theorem runQuery_returns_received_rows_witness:
  "runQuery ''select oid, typname from pg_type where oid in (23,25)'' example_catalog_queue =
     (Inr [[''23'', ''int4''], [''25'', ''text'']],
      \<lparr>inbound = [],
       trace = [Sent (Query ''select oid, typname from pg_type where oid in (23,25)''),
                Awaited [rowDescription], Awaited [dataRow, commandComplete],
                Awaited [dataRow, commandComplete], Awaited [dataRow, commandComplete]]\<rparr>)
   \<and> fst (runQuery ''SELECT 1 WHERE false''
         \<lparr>inbound = [RowDescription [], CommandComplete ''SELECT 0''], trace = []\<rparr>) = Inr []"
proof -
  have a: "inbound example_catalog_queue =
      RowDescription [] # map DataRow [[Column ''23'', Column ''int4''], [Column ''25'', Column ''text'']]
        @ CommandComplete ''SELECT 2'' # []"
    by (simp add: example_catalog_queue_def)
  have b: "inbound \<lparr>inbound = [RowDescription [], CommandComplete ''SELECT 0''], trace = []\<rparr>
      = RowDescription [] # CommandComplete ''SELECT 0'' # []" by simp
  from runQuery_returns_received_rows[of example_catalog_queue "[]"
      "[[Column ''23'', Column ''int4''], [Column ''25'', Column ''text'']]" "''SELECT 2''" "[]"
      "''select oid, typname from pg_type where oid in (23,25)''"] a
  have 1: "runQuery ''select oid, typname from pg_type where oid in (23,25)'' example_catalog_queue =
     (Inr [[''23'', ''int4''], [''25'', ''text'']],
      \<lparr>inbound = [],
       trace = [Sent (Query ''select oid, typname from pg_type where oid in (23,25)''),
                Awaited [rowDescription], Awaited [dataRow, commandComplete],
                Awaited [dataRow, commandComplete], Awaited [dataRow, commandComplete]]\<rparr>)"
    by (simp add: example_catalog_queue_def numeral_2_eq_2)
  from runQuery_returns_received_rows[of
      "\<lparr>inbound = [RowDescription [], CommandComplete ''SELECT 0''], trace = []\<rparr>"
      "[]" "[]" "''SELECT 0''" "[]" "''SELECT 1 WHERE false''"] b
  have 2: "fst (runQuery ''SELECT 1 WHERE false''
         \<lparr>inbound = [RowDescription [], CommandComplete ''SELECT 0''], trace = []\<rparr>) = Inr []"
    by simp
  from 1 2 show ?thesis by (rule conjI)
qed

text \<open>
  Claim C10. \<^verbatim>\<open>paramTypes\<close> is built by a loop over the parameters the server
  reported, not over the recorded names: with n reported parameters and m
  recorded names exactly the first n names are to receive entries, and for n
  above m the surplus parameters go under the key \<^verbatim>\<open>undefined\<close>. The source
  does so for the names its assignment can store
  (\<open>getTypes_paramTypes_keys\<close>), but the name \<^verbatim>\<open>__proto__\<close> receives no entry:
  for the placeholders \<^verbatim>\<open>:__proto__\<close> and \<^verbatim>\<open>:constructor\<close> with two reported
  parameters, the first two names are both recorded and only \<^verbatim>\<open>constructor\<close>
  is a key of \<^verbatim>\<open>paramTypes\<close>.
\<close>

theorem paramTypes_keys_miss_proto_name:
  "paramNames (desugarQuery ''delete from t where a = :__proto__ or b = :constructor'') = [''__proto__'', ''constructor'']
   \<and> (\<exists>r q'. getTypes ''delete from t where a = :__proto__ or b = :constructor'' ''q''
                 (example_insert_queue [\<lparr>oid = 23\<rparr>, \<lparr>oid = 23\<rparr>]) = (Inr (Inr r), q')
          \<and> dom (paramTypes r) = {''constructor''}
          \<and> paramTypes r ''constructor'' = Some (Some ''int4'')
          \<and> paramTypes r ''__proto__'' = None
          \<and> dom (paramTypes r)
               \<noteq> set (take 2 (paramNames (desugarQuery ''delete from t where a = :__proto__ or b = :constructor''))))"
proof -
  let ?query = "''delete from t where a = :__proto__ or b = :constructor''" and ?ps = "[\<lparr>oid = 23\<rparr>, \<lparr>oid = 23\<rparr>]"
  let ?td = "\<lparr>fields' = [], params = ?ps\<rparr>"
  have names: "paramNames (desugarQuery ?query) = [''__proto__'', ''constructor'']"
    by (simp add: desugarQuery_examples)
  have tm: "get_property (typeMap_of [[''23'', ''int4'']]) ''23'' = Some ''int4''"
    by (simp add: typeMap_of_def get_property_def nth_opt_def)
  from example_insert_exchange[of ?query "''q''" ?ps] obtain q1 q2 q3 where
    p: "getTypeData (desugaredQuery (desugarQuery ?query)) ''q'' (example_insert_queue ?ps)
          = (Inr (Inr ?td), q1)"
       "runQuery (typeQuery (map oid (params ?td) @ map typeOID (fields' ?td))) q1
          = (Inr [[''23'', ''int4'']], q2)"
       "runQuery (attributeQuery (attrSelection (fields' ?td))) q2 = (Inr [], q3)"
    by (elim exE conjE)
  let ?r = "\<lparr>paramTypes = paramTypes_loop (params ?td) 0 (paramNames (desugarQuery ?query))
                            (typeMap_of [[''23'', ''int4'']]) Map.empty,
             returnTypes = map (returnTypeOf (attrMap_of []) (typeMap_of [[''23'', ''int4'']]))
                             (fields' ?td)\<rparr>"
  have r: "getTypes ?query ''q'' (example_insert_queue ?ps) = (Inr (Inr ?r), q3)"
    by (rule getTypes_resolved[OF p])
  have pt: "paramTypes ?r = [''constructor'' \<mapsto> Some ''int4'']"
    by (simp add: names nth_opt_def assign_property_def number_toString_examples tm)
  have d: "dom (paramTypes ?r) = {''constructor''}"
    unfolding pt by simp
  have c: "paramTypes ?r ''constructor'' = Some (Some ''int4'')"
    unfolding pt by simp
  have n: "paramTypes ?r ''__proto__'' = None"
    unfolding pt by simp
  have ne: "dom (paramTypes ?r) \<noteq> set (take 2 (paramNames (desugarQuery ?query)))"
    using d by (simp add: names)
  from r d c n ne have "\<exists>r q'. getTypes ?query ''q'' (example_insert_queue ?ps) = (Inr (Inr r), q')
          \<and> dom (paramTypes r) = {''constructor''}
          \<and> paramTypes r ''constructor'' = Some (Some ''int4'')
          \<and> paramTypes r ''__proto__'' = None
          \<and> dom (paramTypes r) \<noteq> set (take 2 (paramNames (desugarQuery ?query)))"
    by (intro exI[of _ ?r] exI[of _ q3] conjI)
  with names show ?thesis by (rule conjI)
qed

end
